theory Spec2Isabelle
  imports Complex_Main "HOL-Library.Sublist"
begin

section \<open>Data model\<close>

text \<open>
  The program is \<^verbatim>\<open>full-script-resumable.js\<close>. Addresses and file names are JavaScript
  strings, block heights are integers, token amounts returned by the chain are unsigned
  big integers. A JavaScript \<^verbatim>\<open>Number\<close> that holds a token count or a USD value is a
  finite double, given here as the rational number it denotes; comparing two of them is
  exact. The operations on them that round are not computed here but taken from the
  environment below.
\<close>

type_synonym address = string

text \<open>An error object; the program only ever reads its \<^verbatim>\<open>code\<close> property.\<close>

datatype js_error = JsError (code: "string option")

text \<open>
  The event filters the program builds: \<^verbatim>\<open>filters.PairCreated()\<close> and
  \<^verbatim>\<open>filters.Transfer(from, to)\<close>, where \<^verbatim>\<open>null\<close> is \<open>None\<close>.
\<close>

datatype event_filter = PairCreated | Transfer "address option" "address option"

text \<open>
  A decoded log. The program reads \<^verbatim>\<open>log.args.pair\<close> of the logs of the factory and
  \<^verbatim>\<open>log.args.to\<close> of the logs of a pool token.
\<close>

record log =
  args_pair :: address
  args_to :: address

text \<open>The record pushed by \<^verbatim>\<open>checkLPHolderValue\<close>.\<close>

record holder_record =
  lpAddress :: address
  holderAddress :: address
  balance :: rat
  holdingValue :: rat

text \<open>The payloads of \<^verbatim>\<open>console.error\<close>, one constructor per call site.\<close>

datatype message =
    AttemptTimeout int address
  | ErrorQuerying int int js_error
  | ErrorTotalSupply address js_error
  | ErrorBalance address address js_error
  | ErrorParsingCheckpoint
  | ErrorProcessing address js_error

text \<open>
  Everything the program does to the outside world, in the order it does it. The progress
  output of \<^verbatim>\<open>console.log\<close> and \<^verbatim>\<open>console.table\<close> is left out: it never fails
  and nothing reads it.
\<close>

datatype effect =
    QueryFilter address event_filter int int
  | BalanceOf address address
  | TotalSupply address
  | GetBlockNumber
  | Sleep int
  | ConsoleError message
  | ReadFile string
  | WriteFile string string
  | AppendFile string string

record world =
  trace :: "effect list"
  files :: "string \<rightharpoonup> string"

text \<open>
  The collaborators outside the repository. A remote read may fail, and may answer
  differently each time it is asked: its outcome is a function of how often the same
  request was made before. \<open>fs_failure f n\<close> is the error, if any, thrown by the read or
  write of the file \<open>f\<close> that comes after \<open>n\<close> earlier ones. \<open>JSON_parse\<close> is
  \<^verbatim>\<open>JSON.parse\<close> on the contents of the checkpoint file: it throws, or returns the array
  of addresses the file holds (a file that parses to anything but an array of strings is
  outside the model). \<open>JSON_stringify\<close> is \<^verbatim>\<open>JSON.stringify\<close> on such an array, and
  \<open>Number_toString\<close> is the conversion of a number inside a template string.
  \<open>parseFloat_formatUnits bn decimals\<close> is the double that
  \<^verbatim>\<open>parseFloat(formatUnits(bn, decimals))\<close> returns, the amount in whole tokens rounded
  to a double, and \<open>Number_times\<close> is the product \<^verbatim>\<open>*\<close> of two doubles, which rounds
  as well. Nothing is assumed of either.
\<close>

record env =
  rpc_queryFilter :: "address \<Rightarrow> event_filter \<Rightarrow> int \<Rightarrow> int \<Rightarrow> nat \<Rightarrow> js_error + log list"
  rpc_balanceOf :: "address \<Rightarrow> address \<Rightarrow> nat \<Rightarrow> js_error + nat"
  rpc_totalSupply :: "address \<Rightarrow> nat \<Rightarrow> js_error + nat"
  rpc_getBlockNumber :: "nat \<Rightarrow> js_error + int"
  fs_failure :: "string \<Rightarrow> nat \<Rightarrow> js_error option"
  JSON_parse :: "string \<Rightarrow> js_error + address list"
  JSON_stringify :: "address list \<Rightarrow> string"
  Number_toString :: "rat \<Rightarrow> string"
  parseFloat_formatUnits :: "nat \<Rightarrow> nat \<Rightarrow> rat"
  Number_times :: "rat \<Rightarrow> rat \<Rightarrow> rat"

definition CSV_FILENAME :: string where
  "CSV_FILENAME = ''lp_qualifiers.csv''"

definition CHECKPOINT_FILENAME :: string where
  "CHECKPOINT_FILENAME = ''checkpoint.json''"

definition factoryAddress :: address where
  "factoryAddress = ''0x5b9f077a77db37f3be0a5b5d31baeff4bc5c0bd7''"

definition ZeroAddress :: address where
  "ZeroAddress = ''0x0000000000000000000000000000000000000000''"

section \<open>Primitive operations\<close>

definition emit :: "effect \<Rightarrow> world \<Rightarrow> world" where
  "emit e w = w\<lparr>trace := trace w @ [e]\<rparr>"

definition console_error :: "message \<Rightarrow> world \<Rightarrow> world" where
  "console_error m w = emit (ConsoleError m) w"

definition sleep :: "int \<Rightarrow> world \<Rightarrow> world" where
  "sleep delay w = emit (Sleep delay) w"

definition call_queryFilter ::
  "env \<Rightarrow> address \<Rightarrow> event_filter \<Rightarrow> int \<Rightarrow> int \<Rightarrow> world \<Rightarrow> (js_error + log list) \<times> world" where
  "call_queryFilter env c f s e w =
     (rpc_queryFilter env c f s e (count_list (trace w) (QueryFilter c f s e)),
      emit (QueryFilter c f s e) w)"

definition call_balanceOf :: "env \<Rightarrow> address \<Rightarrow> address \<Rightarrow> world \<Rightarrow> (js_error + nat) \<times> world" where
  "call_balanceOf env lp a w =
     (rpc_balanceOf env lp a (count_list (trace w) (BalanceOf lp a)), emit (BalanceOf lp a) w)"

definition call_totalSupply :: "env \<Rightarrow> address \<Rightarrow> world \<Rightarrow> (js_error + nat) \<times> world" where
  "call_totalSupply env lp w =
     (rpc_totalSupply env lp (count_list (trace w) (TotalSupply lp)), emit (TotalSupply lp) w)"

definition call_getBlockNumber :: "env \<Rightarrow> world \<Rightarrow> (js_error + int) \<times> world" where
  "call_getBlockNumber env w =
     (rpc_getBlockNumber env (count_list (trace w) GetBlockNumber), emit GetBlockNumber w)"

text \<open>File operations. One that fails leaves the file as it was.\<close>

fun touches :: "string \<Rightarrow> effect \<Rightarrow> bool" where
  "touches f (ReadFile g) = (f = g)"
| "touches f (WriteFile g d) = (f = g)"
| "touches f (AppendFile g d) = (f = g)"
| "touches f e = False"

definition fs_ops :: "string \<Rightarrow> world \<Rightarrow> nat" where
  "fs_ops f w = length (filter (touches f) (trace w))"

definition ENOENT :: js_error where
  "ENOENT = JsError (Some ''ENOENT'')"

definition existsSync :: "string \<Rightarrow> world \<Rightarrow> bool" where
  "existsSync f w = (files w f \<noteq> None)"

definition readFileSync :: "env \<Rightarrow> string \<Rightarrow> world \<Rightarrow> (js_error + string) \<times> world" where
  "readFileSync env f w =
     (case fs_failure env f (fs_ops f w) of
        Some err \<Rightarrow> (Inl err, emit (ReadFile f) w)
      | None \<Rightarrow>
          (case files w f of
             None \<Rightarrow> (Inl ENOENT, emit (ReadFile f) w)
           | Some d \<Rightarrow> (Inr d, emit (ReadFile f) w)))"

definition writeFileSync :: "env \<Rightarrow> string \<Rightarrow> string \<Rightarrow> world \<Rightarrow> (js_error + unit) \<times> world" where
  "writeFileSync env f d w =
     (case fs_failure env f (fs_ops f w) of
        Some err \<Rightarrow> (Inl err, emit (WriteFile f d) w)
      | None \<Rightarrow> (Inr (), emit (WriteFile f d) (w\<lparr>files := (files w)(f \<mapsto> d)\<rparr>)))"

definition appendFileSync :: "env \<Rightarrow> string \<Rightarrow> string \<Rightarrow> world \<Rightarrow> (js_error + unit) \<times> world" where
  "appendFileSync env f d w =
     (case fs_failure env f (fs_ops f w) of
        Some err \<Rightarrow> (Inl err, emit (AppendFile f d) w)
      | None \<Rightarrow>
          (Inr (), emit (AppendFile f d)
             (w\<lparr>files := (files w)(f \<mapsto> (case files w f of None \<Rightarrow> d | Some c \<Rightarrow> c @ d))\<rparr>)))"

text \<open>\<^verbatim>\<open>[...new Set(xs)]\<close>: a set keeps its elements in insertion order.\<close>

fun Set_add :: "'a list \<Rightarrow> 'a \<Rightarrow> 'a list" where
  "Set_add s x = (if x \<in> set s then s else s @ [x])"

definition Set_of :: "'a list \<Rightarrow> 'a list" where
  "Set_of xs = foldl Set_add [] xs"

text \<open>\<^verbatim>\<open>Array.prototype.join\<close> on strings.\<close>

fun join :: "string \<Rightarrow> string list \<Rightarrow> string" where
  "join sep [] = []"
| "join sep [x] = x"
| "join sep (x # y # ys) = x @ sep @ join sep (y # ys)"

section \<open>The program\<close>

subsection \<open>\<^verbatim>\<open>fetchBalanceWithRetries\<close>\<close>

definition is_timeout :: "js_error \<Rightarrow> bool" where
  "is_timeout error = (code error = Some ''ETIMEDOUT'' \<or> code error = Some ''TIMEOUT'')"

text \<open>
  The \<^verbatim>\<open>for\<close> loop from \<open>attempt\<close> on. Falling out of the loop returns
  \<^verbatim>\<open>undefined\<close>, which is \<open>Inr None\<close>.
\<close>

function fetchBalance_from ::
  "env \<Rightarrow> address \<Rightarrow> address \<Rightarrow> int \<Rightarrow> int \<Rightarrow> int \<Rightarrow> world \<Rightarrow> (js_error + nat option) \<times> world" where
  "fetchBalance_from env lp a retries delayMs attempt w =
     (if attempt \<le> retries then
        (case call_balanceOf env lp a w of
           (Inr balanceBN, w1) \<Rightarrow> (Inr (Some balanceBN), w1)
         | (Inl error, w1) \<Rightarrow>
             if is_timeout error then
               (let w2 = console_error (AttemptTimeout attempt a) w1 in
                if attempt < retries
                then fetchBalance_from env lp a retries delayMs (attempt + 1) (sleep delayMs w2)
                else (Inl error, w2))
             else (Inl error, w1))
      else (Inr None, w))"
  by pat_completeness auto
termination
  by (relation "measure (\<lambda>(env, lp, a, retries, delayMs, attempt, w). nat (retries + 1 - attempt))")
     auto

declare fetchBalance_from.simps [simp del]

definition fetchBalanceWithRetries ::
  "env \<Rightarrow> address \<Rightarrow> address \<Rightarrow> int \<Rightarrow> int \<Rightarrow> world \<Rightarrow> (js_error + nat option) \<times> world" where
  "fetchBalanceWithRetries env lp a retries delayMs w =
     fetchBalance_from env lp a retries delayMs 1 w"

subsection \<open>\<^verbatim>\<open>queryFilterPaginated\<close>\<close>

text \<open>
  The loop from \<open>current\<close> on, with the events gathered so far. It does not end when
  \<open>batchSize\<close> is not positive: then the value is \<open>None\<close>.
\<close>

partial_function (option) queryFilter_from ::
  "env \<Rightarrow> address \<Rightarrow> event_filter \<Rightarrow> int \<Rightarrow> int \<Rightarrow> int \<Rightarrow> log list \<Rightarrow> world
     \<Rightarrow> (log list \<times> world) option" where
  "queryFilter_from env c f toBlock batchSize current events w =
     (if current \<le> toBlock then
        (let start = current;
             end = min (current + batchSize - 1) toBlock
         in case call_queryFilter env c f start end w of
              (Inr batch, w1) \<Rightarrow>
                queryFilter_from env c f toBlock batchSize (current + batchSize) (events @ batch) w1
            | (Inl error, w1) \<Rightarrow>
                queryFilter_from env c f toBlock batchSize (current + batchSize) events
                  (console_error (ErrorQuerying start end error) w1))
      else Some (events, w))"

definition queryFilterPaginated ::
  "env \<Rightarrow> address \<Rightarrow> event_filter \<Rightarrow> int \<Rightarrow> int \<Rightarrow> int \<Rightarrow> world \<Rightarrow> (log list \<times> world) option" where
  "queryFilterPaginated env c f fromBlock toBlock batchSize w =
     queryFilter_from env c f toBlock batchSize fromBlock [] w"

subsection \<open>Discovery\<close>

definition getLPPairAddresses ::
  "env \<Rightarrow> int \<Rightarrow> int \<Rightarrow> int \<Rightarrow> world \<Rightarrow> (address list \<times> world) option" where
  "getLPPairAddresses env fromBlock toBlock batchSize w =
     (case queryFilterPaginated env factoryAddress PairCreated fromBlock toBlock batchSize w of
        None \<Rightarrow> None
      | Some (logs, w1) \<Rightarrow> Some (Set_of (map args_pair logs), w1))"

definition getLPHolders ::
  "env \<Rightarrow> address \<Rightarrow> int \<Rightarrow> int \<Rightarrow> int \<Rightarrow> world \<Rightarrow> (address list \<times> world) option" where
  "getLPHolders env lp fromBlock toBlock batchSize w =
     (case queryFilterPaginated env lp (Transfer (Some ZeroAddress) None)
             fromBlock toBlock batchSize w of
        None \<Rightarrow> None
      | Some (logs, w1) \<Rightarrow> Some (Set_of (map args_to logs), w1))"

subsection \<open>Valuation\<close>

definition getLPTokenUSDValue :: "address \<Rightarrow> rat" where
  "getLPTokenUSDValue lp = 5"

definition getLiquidityPoolValue :: "env \<Rightarrow> address \<Rightarrow> nat \<Rightarrow> world \<Rightarrow> rat \<times> world" where
  "getLiquidityPoolValue env lp decimals w =
     (case call_totalSupply env lp w of
        (Inr totalSupplyBN, w1) \<Rightarrow>
          (let totalSupply = parseFloat_formatUnits env totalSupplyBN decimals;
               lpTokenUSDValue = getLPTokenUSDValue lp;
               poolValue = Number_times env totalSupply lpTokenUSDValue
           in (poolValue, w1))
      | (Inl err, w1) \<Rightarrow> (0, console_error (ErrorTotalSupply lp err) w1))"

text \<open>
  \<^verbatim>\<open>formatUnits(undefined, decimals)\<close> throws; the error is caught by the same handler as a
  failed balance read.
\<close>

definition INVALID_ARGUMENT :: js_error where
  "INVALID_ARGUMENT = JsError (Some ''INVALID_ARGUMENT'')"

text \<open>The loop of \<^verbatim>\<open>checkLPHolderValue\<close>, with the records pushed so far.\<close>

fun checkLPHolderValue_from ::
  "env \<Rightarrow> address \<Rightarrow> rat \<Rightarrow> nat \<Rightarrow> address list \<Rightarrow> holder_record list \<Rightarrow> world
     \<Rightarrow> holder_record list \<times> world" where
  "checkLPHolderValue_from env lp lpTokenUSDValue decimals [] qualifyingHolders w =
     (qualifyingHolders, w)"
| "checkLPHolderValue_from env lp lpTokenUSDValue decimals (addr # rest) qualifyingHolders w =
     (case fetchBalanceWithRetries env lp addr 3 2000 w of
        (Inr (Some balanceBN), w1) \<Rightarrow>
          (let bal = parseFloat_formatUnits env balanceBN decimals;
               val = Number_times env bal lpTokenUSDValue
           in if val \<ge> 5000
              then checkLPHolderValue_from env lp lpTokenUSDValue decimals rest
                     (qualifyingHolders @
                        [\<lparr>lpAddress = lp, holderAddress = addr, balance = bal, holdingValue = val\<rparr>])
                     w1
              else checkLPHolderValue_from env lp lpTokenUSDValue decimals rest
                     qualifyingHolders w1)
      | (Inr None, w1) \<Rightarrow>
          checkLPHolderValue_from env lp lpTokenUSDValue decimals rest qualifyingHolders
            (console_error (ErrorBalance addr lp INVALID_ARGUMENT) w1)
      | (Inl err, w1) \<Rightarrow>
          checkLPHolderValue_from env lp lpTokenUSDValue decimals rest qualifyingHolders
            (console_error (ErrorBalance addr lp err) w1))"

definition checkLPHolderValue ::
  "env \<Rightarrow> address \<Rightarrow> address list \<Rightarrow> rat \<Rightarrow> nat \<Rightarrow> world \<Rightarrow> holder_record list \<times> world" where
  "checkLPHolderValue env lp holderAddresses lpTokenUSDValue decimals w =
     checkLPHolderValue_from env lp lpTokenUSDValue decimals holderAddresses [] w"

subsection \<open>Output and checkpoint files\<close>

definition newline :: string where
  "newline = [CHR 0x0A]"

definition csv_header :: string where
  "csv_header = ''lpAddress,holderAddress,balance,holdingValue'' @ newline"

definition csv_row :: "env \<Rightarrow> holder_record \<Rightarrow> string" where
  "csv_row env r =
     lpAddress r @ '','' @ holderAddress r @ '','' @ Number_toString env (balance r) @ '','' @
     Number_toString env (holdingValue r)"

definition csv_rows :: "env \<Rightarrow> holder_record list \<Rightarrow> string" where
  "csv_rows env records = join newline (map (csv_row env) records) @ newline"

definition appendRecordsToCSV ::
  "env \<Rightarrow> holder_record list \<Rightarrow> string \<Rightarrow> world \<Rightarrow> (js_error + unit) \<times> world" where
  "appendRecordsToCSV env records filename w =
     (case (if \<not> existsSync filename w then writeFileSync env filename csv_header w
            else (Inr (), w)) of
        (Inl err, w1) \<Rightarrow> (Inl err, w1)
      | (Inr u, w1) \<Rightarrow> appendFileSync env filename (csv_rows env records) w1)"

definition loadCheckpoint :: "env \<Rightarrow> string \<Rightarrow> world \<Rightarrow> address list \<times> world" where
  "loadCheckpoint env filename w =
     (if existsSync filename w then
        (case readFileSync env filename w of
           (Inr data, w1) \<Rightarrow>
             (case JSON_parse env data of
                Inr checkpoint \<Rightarrow> (checkpoint, w1)
              | Inl e \<Rightarrow> ([], console_error ErrorParsingCheckpoint w1))
         | (Inl e, w1) \<Rightarrow> ([], console_error ErrorParsingCheckpoint w1))
      else ([], w))"

definition saveCheckpoint ::
  "env \<Rightarrow> string \<Rightarrow> address list \<Rightarrow> world \<Rightarrow> (js_error + unit) \<times> world" where
  "saveCheckpoint env filename checkpoint w =
     writeFileSync env filename (JSON_stringify env checkpoint) w"

subsection \<open>\<^verbatim>\<open>main\<close>\<close>

text \<open>
  The body of the \<^verbatim>\<open>try\<close> block for one pool. \<^verbatim>\<open>checkpoint\<close> is an array that
  \<^verbatim>\<open>push\<close> changes in place, so the array is returned also when the body throws.
\<close>

definition process_pair ::
  "env \<Rightarrow> int \<Rightarrow> int \<Rightarrow> int \<Rightarrow> address \<Rightarrow> address list \<Rightarrow> world
     \<Rightarrow> ((js_error + unit) \<times> address list \<times> world) option" where
  "process_pair env fromBlock toBlock batchSize lp checkpoint w =
     (case getLiquidityPoolValue env lp 18 w of
        (poolValue, w1) \<Rightarrow>
          if poolValue \<ge> 20000 then
            (let checkpoint1 = checkpoint @ [lp] in
             case saveCheckpoint env CHECKPOINT_FILENAME checkpoint1 w1 of
               (r, w2) \<Rightarrow> Some (r, checkpoint1, w2))
          else
            (case getLPHolders env lp fromBlock toBlock batchSize w1 of
               None \<Rightarrow> None
             | Some (holders, w2) \<Rightarrow>
                 (let lpTokenUSDValue = getLPTokenUSDValue lp in
                  case checkLPHolderValue env lp holders lpTokenUSDValue 18 w2 of
                    (qualifyingHolders, w3) \<Rightarrow>
                      (case (if length qualifyingHolders > 0
                             then appendRecordsToCSV env qualifyingHolders CSV_FILENAME w3
                             else (Inr (), w3)) of
                         (Inl err, w4) \<Rightarrow> Some (Inl err, checkpoint, w4)
                       | (Inr u, w4) \<Rightarrow>
                           (let checkpoint1 = checkpoint @ [lp] in
                            case saveCheckpoint env CHECKPOINT_FILENAME checkpoint1 w4 of
                              (r, w5) \<Rightarrow> Some (r, checkpoint1, w5))))))"

text \<open>The \<^verbatim>\<open>for\<close> loop over the pools to process, with its \<^verbatim>\<open>catch\<close>.\<close>

fun process_pairs ::
  "env \<Rightarrow> int \<Rightarrow> int \<Rightarrow> int \<Rightarrow> address list \<Rightarrow> address list \<Rightarrow> world
     \<Rightarrow> (address list \<times> world) option" where
  "process_pairs env fromBlock toBlock batchSize [] checkpoint w = Some (checkpoint, w)"
| "process_pairs env fromBlock toBlock batchSize (lp # rest) checkpoint w =
     (case process_pair env fromBlock toBlock batchSize lp checkpoint w of
        None \<Rightarrow> None
      | Some (Inr u, checkpoint1, w1) \<Rightarrow>
          process_pairs env fromBlock toBlock batchSize rest checkpoint1 w1
      | Some (Inl err, checkpoint1, w1) \<Rightarrow>
          process_pairs env fromBlock toBlock batchSize rest checkpoint1
            (console_error (ErrorProcessing lp err) w1))"

text \<open>An \<open>Inl\<close> result is the error that rejects the promise of \<^verbatim>\<open>main\<close>.\<close>

definition main :: "env \<Rightarrow> world \<Rightarrow> ((js_error + unit) \<times> world) option" where
  "main env w =
     (let fromBlock = 18672539 in
      case call_getBlockNumber env w of
        (Inl err, w1) \<Rightarrow> Some (Inl err, w1)
      | (Inr latestBlock, w1) \<Rightarrow>
          (let toBlock = latestBlock;
               batchSize = 5000
           in case loadCheckpoint env CHECKPOINT_FILENAME w1 of
                (checkpoint, w2) \<Rightarrow>
                  (case getLPPairAddresses env fromBlock toBlock batchSize w2 of
                     None \<Rightarrow> None
                   | Some (lpPairAddresses, w3) \<Rightarrow>
                       (let lpPairsToProcess =
                              filter (\<lambda>addr. addr \<notin> set checkpoint) lpPairAddresses
                        in case process_pairs env fromBlock toBlock batchSize
                                  lpPairsToProcess checkpoint w3 of
                             None \<Rightarrow> None
                           | Some (checkpoint1, w4) \<Rightarrow> Some (Inr (), w4)))))"

section \<open>Auxiliary definitions\<close>

text \<open>
  The block ranges the loop of \<^verbatim>\<open>queryFilterPaginated\<close> visits from \<open>current\<close> on,
  for a positive batch size: \<open>start\<close> and \<open>end\<close> of each iteration.
\<close>

function batch_ranges :: "int \<Rightarrow> int \<Rightarrow> int \<Rightarrow> (int \<times> int) list" where
  "batch_ranges current toBlock batchSize =
     (if current \<le> toBlock \<and> 0 < batchSize
      then (current, min (current + batchSize - 1) toBlock)
             # batch_ranges (current + batchSize) toBlock batchSize
      else [])"
  by pat_completeness auto
termination
  by (relation "measure (\<lambda>(current, toBlock, batchSize). nat (toBlock + 1 - current))") auto

declare batch_ranges.simps [simp del]

text \<open>
  What the log source answers for the range \<open>r\<close> when asked in world \<open>w\<close>, the events
  the loop keeps of that answer, and what the iteration for \<open>r\<close> does.
\<close>

definition batch_outcome ::
  "env \<Rightarrow> address \<Rightarrow> event_filter \<Rightarrow> world \<Rightarrow> int \<times> int \<Rightarrow> js_error + log list" where
  "batch_outcome env c f w r =
     rpc_queryFilter env c f (fst r) (snd r)
       (count_list (trace w) (QueryFilter c f (fst r) (snd r)))"

definition batch_events ::
  "env \<Rightarrow> address \<Rightarrow> event_filter \<Rightarrow> world \<Rightarrow> int \<times> int \<Rightarrow> log list" where
  "batch_events env c f w r =
     (case batch_outcome env c f w r of Inr batch \<Rightarrow> batch | Inl error \<Rightarrow> [])"

definition batch_effects ::
  "env \<Rightarrow> address \<Rightarrow> event_filter \<Rightarrow> world \<Rightarrow> int \<times> int \<Rightarrow> effect list" where
  "batch_effects env c f w r =
     QueryFilter c f (fst r) (snd r) #
     (case batch_outcome env c f w r of
        Inr batch \<Rightarrow> []
      | Inl error \<Rightarrow> [ConsoleError (ErrorQuerying (fst r) (snd r) error)])"

text \<open>What a run added to the trace.\<close>

definition new_effects :: "world \<Rightarrow> world \<Rightarrow> effect list" where
  "new_effects w w' = drop (length (trace w)) (trace w')"

subsection \<open>Example environments\<close>

text \<open>
  An environment in which the chain is at the first scanned block, every read succeeds
  and finds nothing, and no file operation fails. The examples below change it field by
  field. Its checkpoint format is a toy one: every address followed by a semicolon. Its
  conversion and its product of numbers are the exact ones: the examples use them only on
  whole numbers of tokens far below \<open>2 ^ 53\<close>, where the doubles of the program are exact
  too.
\<close>

definition SyntaxError :: js_error where
  "SyntaxError = JsError None"

fun toy_parse :: "string \<Rightarrow> string \<Rightarrow> address list option" where
  "toy_parse cur [] = (if cur = [] then Some [] else None)"
| "toy_parse cur (c # cs) =
     (if c = CHR '';''
      then (case toy_parse [] cs of None \<Rightarrow> None | Some as \<Rightarrow> Some (cur # as))
      else toy_parse (cur @ [c]) cs)"

definition quiet_env :: env where
  "quiet_env =
     \<lparr>rpc_queryFilter = (\<lambda>c f s e n. Inr []),
      rpc_balanceOf = (\<lambda>lp a n. Inr 0),
      rpc_totalSupply = (\<lambda>lp n. Inr 0),
      rpc_getBlockNumber = (\<lambda>n. Inr 18672539),
      fs_failure = (\<lambda>f n. None),
      JSON_parse = (\<lambda>s. case toy_parse [] s of None \<Rightarrow> Inl SyntaxError | Some as \<Rightarrow> Inr as),
      JSON_stringify = (\<lambda>as. concat (map (\<lambda>a. a @ '';'') as)),
      Number_toString = (\<lambda>q. ''#''),
      parseFloat_formatUnits = (\<lambda>bn decimals. of_nat bn / 10 ^ decimals),
      Number_times = (\<lambda>a b. a * b)\<rparr>"

definition empty_world :: world where
  "empty_world = \<lparr>trace = [], files = Map.empty\<rparr>"

definition pair_log :: "address \<Rightarrow> log" where
  "pair_log a = \<lparr>args_pair = a, args_to = []\<rparr>"

definition mint_log :: "address \<Rightarrow> log" where
  "mint_log a = \<lparr>args_pair = [], args_to = a\<rparr>"

text \<open>Duplicate events: the factory reports A, B, A and every pool token h1, h1, h2.\<close>

definition duplicates_env :: env where
  "duplicates_env =
     quiet_env\<lparr>rpc_queryFilter :=
       (\<lambda>c f s e n. if f = PairCreated then Inr [pair_log ''A'', pair_log ''B'', pair_log ''A'']
                    else Inr [mint_log ''h1'', mint_log ''h1'', mint_log ''h2''])\<rparr>"

text \<open>The block ranges asked of contract \<open>c\<close> with filter \<open>f\<close>, in the order of asking.\<close>

fun queried_ranges :: "address \<Rightarrow> event_filter \<Rightarrow> effect list \<Rightarrow> (int \<times> int) list" where
  "queried_ranges c f [] = []"
| "queried_ranges c f (QueryFilter c' f' s e # es) =
     (if c' = c \<and> f' = f then (s, e) # queried_ranges c f es else queried_ranges c f es)"
| "queried_ranges c f (x # es) = queried_ranges c f es"

text \<open>The query for the batch that starts at block 15 fails; the others find one pair each.\<close>

definition failing_batch_env :: env where
  "failing_batch_env =
     quiet_env\<lparr>rpc_queryFilter :=
       (\<lambda>c f s e n. if s = 15 then Inl (JsError (Some ''TIMEOUT''))
                    else Inr [pair_log (if s = 10 then ''A'' else ''B'')])\<rparr>"

text \<open>The delays of the pauses among some effects, in order.\<close>

fun pauses :: "effect list \<Rightarrow> int list" where
  "pauses [] = []"
| "pauses (Sleep delay # es) = delay # pauses es"
| "pauses (e # es) = pauses es"

text \<open>
  What \<open>k\<close> attempts that time out do, the first of them numbered \<open>attempt\<close>, when
  another attempt follows each: the read, the logged failure, the pause.
\<close>

fun timeout_rounds :: "address \<Rightarrow> address \<Rightarrow> int \<Rightarrow> int \<Rightarrow> nat \<Rightarrow> effect list" where
  "timeout_rounds lp a delayMs attempt 0 = []"
| "timeout_rounds lp a delayMs attempt (Suc k) =
     [BalanceOf lp a, ConsoleError (AttemptTimeout attempt a), Sleep delayMs]
       @ timeout_rounds lp a delayMs (attempt + 1) k"

text \<open>
  The body of the loop of \<^verbatim>\<open>checkLPHolderValue\<close> for one holder: the records it
  pushes and the world it leaves.
\<close>

definition holder_step ::
  "env \<Rightarrow> address \<Rightarrow> rat \<Rightarrow> nat \<Rightarrow> address \<Rightarrow> world \<Rightarrow> holder_record list \<times> world" where
  "holder_step env lp lpTokenUSDValue decimals addr w =
     (case fetchBalanceWithRetries env lp addr 3 2000 w of
        (Inr (Some balanceBN), w1) \<Rightarrow>
          (let bal = parseFloat_formatUnits env balanceBN decimals;
               val = Number_times env bal lpTokenUSDValue
           in (if val \<ge> 5000
               then [\<lparr>lpAddress = lp, holderAddress = addr, balance = bal, holdingValue = val\<rparr>]
               else [], w1))
      | (Inr None, w1) \<Rightarrow> ([], console_error (ErrorBalance addr lp INVALID_ARGUMENT) w1)
      | (Inl err, w1) \<Rightarrow> ([], console_error (ErrorBalance addr lp err) w1))"

text \<open>
  Balance reads that time out: for h1 twice before the balance 7 is read, for h2 once
  before the read fails for another reason, for every other holder each time.
\<close>

definition flaky_env :: env where
  "flaky_env =
     quiet_env\<lparr>rpc_balanceOf :=
       (\<lambda>lp a n. if a = ''h1'' then (if n < 2 then Inl (JsError (Some ''TIMEOUT'')) else Inr 7)
                  else if a = ''h2'' then (if n < 1 then Inl (JsError (Some ''ETIMEDOUT''))
                                          else Inl (JsError (Some ''CALL_EXCEPTION'')))
                  else Inl (JsError (Some ''TIMEOUT'')))\<rparr>"

text \<open>
  Balances at the threshold: with 18 decimals and 5 USD a token, h1 holds 1000 tokens,
  exactly 5000 USD, and h2 holds 999 tokens, 4995 USD; the read for h3 fails; every other
  holder holds 10000 USD.
\<close>

definition holders_env :: env where
  "holders_env =
     quiet_env\<lparr>rpc_balanceOf :=
       (\<lambda>lp a n. if a = ''h1'' then Inr (1000 * 10 ^ 18)
                  else if a = ''h2'' then Inr (999 * 10 ^ 18)
                  else if a = ''h3'' then Inl (JsError (Some ''CALL_EXCEPTION''))
                  else Inr (2000 * 10 ^ 18))\<rparr>"

definition w_h0 :: world where
  "w_h0 = \<lparr>trace = [BalanceOf ''A'' ''h0''], files = Map.empty\<rparr>"

definition w_h1 :: world where
  "w_h1 = \<lparr>trace = [BalanceOf ''A'' ''h0'', BalanceOf ''A'' ''h1''], files = Map.empty\<rparr>"

definition w_h2 :: world where
  "w_h2 = \<lparr>trace = [BalanceOf ''A'' ''h0'', BalanceOf ''A'' ''h1'', BalanceOf ''A'' ''h2''],
           files = Map.empty\<rparr>"

subsection \<open>The effects of a run\<close>

text \<open>
  What processing the pool \<open>lp\<close> may do: read its supply, ask for its mint events, read
  balances of its holders, pause, log an error, write the checkpoint file, create the
  output file with its header, and append to the output file the rows of at least one
  record, all of them records of \<open>lp\<close>.
\<close>

fun pool_effect :: "env \<Rightarrow> address \<Rightarrow> effect \<Rightarrow> bool" where
  "pool_effect env lp (TotalSupply c) = (c = lp)"
| "pool_effect env lp (QueryFilter c f s e) = (c = lp \<and> f = Transfer (Some ZeroAddress) None)"
| "pool_effect env lp (BalanceOf c a) = (c = lp)"
| "pool_effect env lp (Sleep d) = True"
| "pool_effect env lp (ConsoleError m) = True"
| "pool_effect env lp (WriteFile f d) =
     (f = CHECKPOINT_FILENAME \<or> f = CSV_FILENAME \<and> d = csv_header)"
| "pool_effect env lp (AppendFile f d) =
     (f = CSV_FILENAME \<and>
      (\<exists>records. records \<noteq> [] \<and> list_all (\<lambda>r. lpAddress r = lp) records \<and> d = csv_rows env records))"
| "pool_effect env lp (ReadFile f) = False"
| "pool_effect env lp GetBlockNumber = False"

text \<open>What \<^verbatim>\<open>main\<close> may do before it turns to the pools.\<close>

fun prelude_effect :: "effect \<Rightarrow> bool" where
  "prelude_effect GetBlockNumber = True"
| "prelude_effect (ReadFile f) = (f = CHECKPOINT_FILENAME)"
| "prelude_effect (ConsoleError m) = True"
| "prelude_effect (QueryFilter c f s e) = (c = factoryAddress \<and> f = PairCreated)"
| "prelude_effect e = False"

text \<open>
  \<open>w'\<close> comes after \<open>w\<close>: its trace is that of \<open>w\<close> followed by effects that satisfy
  \<open>Q\<close>; and what the output file held in \<open>w\<close> is still the beginning of what it holds
  in \<open>w'\<close>.
\<close>

definition extends :: "(effect \<Rightarrow> bool) \<Rightarrow> world \<Rightarrow> world \<Rightarrow> bool" where
  "extends Q w w' = (\<exists>es. trace w' = trace w @ es \<and> list_all Q es)"

definition csv_grows :: "world \<Rightarrow> world \<Rightarrow> bool" where
  "csv_grows w w' =
     (\<forall>c. files w CSV_FILENAME = Some c \<longrightarrow> (\<exists>suffix. files w' CSV_FILENAME = Some (c @ suffix)))"

text \<open>
  The work done for the pool \<open>P\<close>: its valuation, the discovery of its holders, the
  reads of their balances.
\<close>

fun concerns :: "address \<Rightarrow> effect \<Rightarrow> bool" where
  "concerns P (TotalSupply c) = (c = P)"
| "concerns P (QueryFilter c f s e) = (c = P \<and> f = Transfer (Some ZeroAddress) None)"
| "concerns P (BalanceOf c a) = (c = P)"
| "concerns P e = False"

text \<open>
  The scenario of the specification: the factory has created the pools A and B; A is worth
  25000 USD and B 10000 USD; the holders of either are h1, worth 6000 USD, and h2, worth
  3000 USD.
\<close>

definition gate_env :: env where
  "gate_env =
     quiet_env\<lparr>rpc_queryFilter :=
       (\<lambda>c f s e n. if f = PairCreated then Inr [pair_log ''A'', pair_log ''B'']
                    else Inr [mint_log ''h1'', mint_log ''h2'']),
      rpc_totalSupply := (\<lambda>lp n. if lp = ''A'' then Inr (5000 * 10 ^ 18) else Inr (2000 * 10 ^ 18)),
      rpc_balanceOf := (\<lambda>lp a n. if a = ''h1'' then Inr (1200 * 10 ^ 18) else Inr (600 * 10 ^ 18)),
      Number_toString := (\<lambda>q. if q = 1200 then ''1200'' else if q = 6000 then ''6000'' else ''#'')\<rparr>"

text \<open>
  A second run: the checkpoint holds A, the output holds a row of A, and the factory
  reports A and B again.
\<close>

definition resume_env :: env where
  "resume_env =
     quiet_env\<lparr>rpc_queryFilter :=
       (\<lambda>c f s e n. if f = PairCreated then Inr [pair_log ''A'', pair_log ''B'']
                    else Inr [mint_log ''h1'']),
      rpc_balanceOf := (\<lambda>lp a n. Inr (2000 * 10 ^ 18))\<rparr>"

definition resume_world :: world where
  "resume_world =
     \<lparr>trace = [],
      files = [CHECKPOINT_FILENAME \<mapsto> ''A;'', CSV_FILENAME \<mapsto> csv_header @ ''A,h0,#,#'' @ newline]\<rparr>"

text \<open>
  Two empty pools A and B, and a checkpoint file that cannot be written the first time
  (the disk is full) and can be written after that.
\<close>

definition ENOSPC :: js_error where
  "ENOSPC = JsError (Some ''ENOSPC'')"

definition save_fails_env :: env where
  "save_fails_env =
     quiet_env\<lparr>rpc_queryFilter :=
       (\<lambda>c f s e n. if f = PairCreated then Inr [pair_log ''A'', pair_log ''B''] else Inr []),
      fs_failure := (\<lambda>f n. if f = CHECKPOINT_FILENAME \<and> n = 0 then Some ENOSPC else None)\<rparr>"

text \<open>A checkpoint file that does not parse.\<close>

definition corrupt_world :: world where
  "corrupt_world = \<lparr>trace = [], files = [CHECKPOINT_FILENAME \<mapsto> ''{not json'']\<rparr>"

section \<open>Basic facts\<close>

lemma emit_simps [simp]: "trace (emit e w) = trace w @ [e]" "files (emit e w) = files w"
  by (simp_all add: emit_def)

lemma console_error_simps [simp]:
  "trace (console_error m w) = trace w @ [ConsoleError m]" "files (console_error m w) = files w"
  by (simp_all add: console_error_def)

lemma sleep_simps [simp]:
  "trace (sleep d w) = trace w @ [Sleep d]" "files (sleep d w) = files w"
  by (simp_all add: sleep_def)

lemma new_effects_append [simp]:
  "trace w' = trace w @ es \<Longrightarrow> new_effects w w' = es"
  by (simp add: new_effects_def)

subsection \<open>Insertion-ordered sets\<close>

lemma Set_of_snoc: "Set_of (xs @ [x]) = Set_add (Set_of xs) x"
  by (simp add: Set_of_def)

lemma set_Set_of: "set (Set_of xs) = set xs"
  by (induction xs rule: rev_induct) (auto simp: Set_of_snoc, simp add: Set_of_def)

lemma distinct_Set_of: "distinct (Set_of xs)"
  by (induction xs rule: rev_induct) (auto simp: Set_of_snoc set_Set_of, simp add: Set_of_def)

lemma Set_of_first_seen:
  "Set_of xs = map (\<lambda>i. xs ! i) (filter (\<lambda>i. xs ! i \<notin> set (take i xs)) [0..<length xs])"
proof (induction xs rule: rev_induct)
  case Nil
  show ?case by (simp add: Set_of_def)
next
  case (snoc x xs)
  let ?ys = "xs @ [x]"
  have old: "map (\<lambda>i. ?ys ! i) (filter (\<lambda>i. ?ys ! i \<notin> set (take i ?ys)) [0..<length xs])
         = Set_of xs"
    unfolding snoc.IH
    by (intro map_cong filter_cong refl) (auto simp: nth_append)
  have new: "filter (\<lambda>i. ?ys ! i \<notin> set (take i ?ys)) [length xs]
         = (if x \<in> set xs then [] else [length xs])"
    by simp
  have "map (\<lambda>i. ?ys ! i) (filter (\<lambda>i. ?ys ! i \<notin> set (take i ?ys)) [0..<length ?ys])
      = Set_of xs @ map (\<lambda>i. ?ys ! i) (if x \<in> set xs then [] else [length xs])"
    using old new by (simp del: take_append)
  also have "\<dots> = Set_of ?ys"
    by (simp add: Set_of_snoc set_Set_of)
  finally show ?case by simp
qed

subsection \<open>The pagination loop\<close>

lemma queryFilter_from_stop:
  "\<not> current \<le> toBlock \<Longrightarrow>
   queryFilter_from env c f toBlock batchSize current events w = Some (events, w)"
  by (subst queryFilter_from.simps) simp

lemma queryFilter_from_step:
  "current \<le> toBlock \<Longrightarrow>
   queryFilter_from env c f toBlock batchSize current events w =
     (case call_queryFilter env c f current (min (current + batchSize - 1) toBlock) w of
        (Inr batch, w1) \<Rightarrow>
          queryFilter_from env c f toBlock batchSize (current + batchSize) (events @ batch) w1
      | (Inl error, w1) \<Rightarrow>
          queryFilter_from env c f toBlock batchSize (current + batchSize) events
            (console_error (ErrorQuerying current (min (current + batchSize - 1) toBlock) error) w1))"
  by (subst queryFilter_from.simps) (simp add: Let_def)

lemma batch_ranges_start:
  "r \<in> set (batch_ranges current toBlock batchSize) \<Longrightarrow> current \<le> fst r"
proof (induction current toBlock batchSize rule: batch_ranges.induct)
  case (1 current toBlock batchSize)
  show ?case
  proof (cases "current \<le> toBlock \<and> 0 < batchSize")
    case True
    with "1.prems" have "r = (current, min (current + batchSize - 1) toBlock)
        \<or> r \<in> set (batch_ranges (current + batchSize) toBlock batchSize)"
      by (subst (asm) batch_ranges.simps) simp
    then show ?thesis
      using "1.IH" [OF True] True by auto
  next
    case False
    with "1.prems" show ?thesis by (subst (asm) batch_ranges.simps) simp
  qed
qed

lemma batch_outcome_later:
  assumes "trace (w1::world) = trace (w::world) @ QueryFilter c f s e # es"
      and "\<forall>x \<in> set es. \<forall>a b. x \<noteq> QueryFilter c f a b"
      and "s < fst r"
  shows "batch_outcome env c f w1 r = batch_outcome env c f w r"
proof -
  have "count_list es (QueryFilter c f (fst r) (snd r)) = 0"
    using assms(2) by (auto simp: count_list_0_iff)
  then show ?thesis
    using assms(1,3) by (auto simp: batch_outcome_def)
qed

lemma queryFilter_from_run:
  assumes "0 < batchSize"
  shows "\<exists>w'. queryFilter_from env c f toBlock batchSize current events w =
           Some (events @ concat (map (batch_events env c f w)
                                   (batch_ranges current toBlock batchSize)), w')
         \<and> trace w' = trace w @ concat (map (batch_effects env c f w)
                                          (batch_ranges current toBlock batchSize))
         \<and> files w' = files w"
  using assms
proof (induction current toBlock batchSize arbitrary: events w rule: batch_ranges.induct)
  case (1 current toBlock batchSize)
  show ?case
  proof (cases "current \<le> toBlock")
    case False
    then show ?thesis
      by (simp add: queryFilter_from_stop batch_ranges.simps [of current])
  next
    case True
    let ?e = "min (current + batchSize - 1) toBlock"
    let ?r = "(current, ?e)"
    let ?rest = "batch_ranges (current + batchSize) toBlock batchSize"
    have ranges: "batch_ranges current toBlock batchSize = ?r # ?rest"
      using True "1.prems" by (subst batch_ranges.simps) simp
    have later: "\<And>(w1::world) es. trace w1 = trace w @ QueryFilter c f current ?e # es \<Longrightarrow>
        \<forall>x \<in> set es. \<forall>a b. x \<noteq> QueryFilter c f a b \<Longrightarrow>
        map (batch_events env c f w1) ?rest = map (batch_events env c f w) ?rest
        \<and> map (batch_effects env c f w1) ?rest = map (batch_effects env c f w) ?rest"
    proof -
      fix w1 :: world and es
      assume a: "trace w1 = trace w @ QueryFilter c f current ?e # es"
         and b: "\<forall>x \<in> set es. \<forall>a b. x \<noteq> QueryFilter c f a b"
      have "\<And>r. r \<in> set ?rest \<Longrightarrow> batch_outcome env c f w1 r = batch_outcome env c f w r"
        using batch_outcome_later [OF a b] batch_ranges_start "1.prems" by fastforce
      then show "map (batch_events env c f w1) ?rest = map (batch_events env c f w) ?rest
        \<and> map (batch_effects env c f w1) ?rest = map (batch_effects env c f w) ?rest"
        by (simp add: batch_events_def batch_effects_def)
    qed
    show ?thesis
    proof (cases "batch_outcome env c f w ?r")
      case (Inr batch)
      let ?w1 = "emit (QueryFilter c f current ?e) w"
      from "1.IH" [of "events @ batch" ?w1] True "1.prems"
      obtain w' where w':
        "queryFilter_from env c f toBlock batchSize (current + batchSize) (events @ batch) ?w1
          = Some ((events @ batch) @ concat (map (batch_events env c f ?w1) ?rest), w')"
        "trace w' = trace ?w1 @ concat (map (batch_effects env c f ?w1) ?rest)"
        "files w' = files ?w1"
        by blast
      have l: "map (batch_events env c f ?w1) ?rest = map (batch_events env c f w) ?rest"
              "map (batch_effects env c f ?w1) ?rest = map (batch_effects env c f w) ?rest"
        using later [of ?w1 "[]"] by simp_all
      have hd: "batch_events env c f w ?r = batch"
               "batch_effects env c f w ?r = [QueryFilter c f current ?e]"
        using Inr by (simp_all add: batch_events_def batch_effects_def)
      have call: "call_queryFilter env c f current ?e w = (Inr batch, ?w1)"
        using Inr by (simp add: call_queryFilter_def batch_outcome_def)
      show ?thesis
        using w' True unfolding ranges l
        by (simp add: queryFilter_from_step call hd)
    next
      case (Inl error)
      let ?w1 = "console_error (ErrorQuerying current ?e error)
                   (emit (QueryFilter c f current ?e) w)"
      from "1.IH" [of events ?w1] True "1.prems"
      obtain w' where w':
        "queryFilter_from env c f toBlock batchSize (current + batchSize) events ?w1
          = Some (events @ concat (map (batch_events env c f ?w1) ?rest), w')"
        "trace w' = trace ?w1 @ concat (map (batch_effects env c f ?w1) ?rest)"
        "files w' = files ?w1"
        by blast
      have l: "map (batch_events env c f ?w1) ?rest = map (batch_events env c f w) ?rest"
              "map (batch_effects env c f ?w1) ?rest = map (batch_effects env c f w) ?rest"
        using later [of ?w1 "[ConsoleError (ErrorQuerying current ?e error)]"] by simp_all
      have hd: "batch_events env c f w ?r = []"
               "batch_effects env c f w ?r =
                  [QueryFilter c f current ?e, ConsoleError (ErrorQuerying current ?e error)]"
        using Inl by (simp_all add: batch_events_def batch_effects_def)
      have call: "call_queryFilter env c f current ?e w =
                    (Inl error, emit (QueryFilter c f current ?e) w)"
        using Inl by (simp add: call_queryFilter_def batch_outcome_def)
      show ?thesis
        using w' True unfolding ranges l
        by (simp add: queryFilter_from_step call hd)
    qed
  qed
qed

section \<open>Discovery returns each address once, in first-seen order\<close>

lemma dup_pairs:
  "getLPPairAddresses duplicates_env 0 0 1 empty_world =
     Some ([''A'', ''B''], emit (QueryFilter factoryAddress PairCreated 0 0) empty_world)"
  by (simp add: getLPPairAddresses_def queryFilterPaginated_def queryFilter_from_step
      queryFilter_from_stop call_queryFilter_def duplicates_env_def quiet_env_def Set_of_def
      pair_log_def)

lemma dup_holders:
  "getLPHolders duplicates_env ''A'' 0 0 1 empty_world =
     Some ([''h1'', ''h2''],
           emit (QueryFilter ''A'' (Transfer (Some ZeroAddress) None) 0 0) empty_world)"
  by (simp add: getLPHolders_def queryFilterPaginated_def queryFilter_from_step
      queryFilter_from_stop call_queryFilter_def duplicates_env_def quiet_env_def Set_of_def
      mint_log_def)

text \<open>
  C9. For a positive batch size and whatever events the log source returns, duplicates
  included, \<^verbatim>\<open>getLPPairAddresses\<close> and \<^verbatim>\<open>getLPHolders\<close> return, and the list
  each returns has no duplicates and is in first-seen order: it consists of the addresses
  at exactly those positions of the fetched event sequence at which an address occurs for
  the first time, in the order of these positions.
\<close>

theorem discovery_first_seen:
  assumes "0 < batchSize"
  shows "(\<exists>logs pairs w1.
            queryFilterPaginated env factoryAddress PairCreated fromBlock toBlock batchSize w
              = Some (logs, w1)
          \<and> getLPPairAddresses env fromBlock toBlock batchSize w = Some (pairs, w1)
          \<and> distinct pairs
          \<and> pairs = map (\<lambda>i. map args_pair logs ! i)
                      (filter (\<lambda>i. map args_pair logs ! i \<notin> set (take i (map args_pair logs)))
                         [0..<length logs]))
       \<and> (\<exists>logs holders w2.
            queryFilterPaginated env lp (Transfer (Some ZeroAddress) None)
              fromBlock toBlock batchSize w = Some (logs, w2)
          \<and> getLPHolders env lp fromBlock toBlock batchSize w = Some (holders, w2)
          \<and> distinct holders
          \<and> holders = map (\<lambda>i. map args_to logs ! i)
                        (filter (\<lambda>i. map args_to logs ! i \<notin> set (take i (map args_to logs)))
                           [0..<length logs]))"
proof (intro conjI)
  from queryFilter_from_run [OF assms, of env factoryAddress PairCreated toBlock fromBlock "[]" w]
  obtain logs w1 where
    q: "queryFilterPaginated env factoryAddress PairCreated fromBlock toBlock batchSize w
          = Some (logs, w1)"
    by (auto simp: queryFilterPaginated_def)
  have g: "getLPPairAddresses env fromBlock toBlock batchSize w
             = Some (Set_of (map args_pair logs), w1)"
    using q by (simp add: getLPPairAddresses_def)
  have f: "Set_of (map args_pair logs) =
             map (\<lambda>i. map args_pair logs ! i)
               (filter (\<lambda>i. map args_pair logs ! i \<notin> set (take i (map args_pair logs)))
                  [0..<length logs])"
    using Set_of_first_seen [of "map args_pair logs"] by simp
  show "\<exists>logs pairs w1.
            queryFilterPaginated env factoryAddress PairCreated fromBlock toBlock batchSize w
              = Some (logs, w1)
          \<and> getLPPairAddresses env fromBlock toBlock batchSize w = Some (pairs, w1)
          \<and> distinct pairs
          \<and> pairs = map (\<lambda>i. map args_pair logs ! i)
                      (filter (\<lambda>i. map args_pair logs ! i \<notin> set (take i (map args_pair logs)))
                         [0..<length logs])"
    by (intro exI [of _ logs] exI [of _ "Set_of (map args_pair logs)"] exI [of _ w1] conjI
          q g distinct_Set_of f)
next
  from queryFilter_from_run [OF assms, of env lp "Transfer (Some ZeroAddress) None"
      toBlock fromBlock "[]" w]
  obtain logs w2 where
    q: "queryFilterPaginated env lp (Transfer (Some ZeroAddress) None)
          fromBlock toBlock batchSize w = Some (logs, w2)"
    by (auto simp: queryFilterPaginated_def)
  have g: "getLPHolders env lp fromBlock toBlock batchSize w
             = Some (Set_of (map args_to logs), w2)"
    using q by (simp add: getLPHolders_def)
  have f: "Set_of (map args_to logs) =
             map (\<lambda>i. map args_to logs ! i)
               (filter (\<lambda>i. map args_to logs ! i \<notin> set (take i (map args_to logs)))
                  [0..<length logs])"
    using Set_of_first_seen [of "map args_to logs"] by simp
  show "\<exists>logs holders w2.
            queryFilterPaginated env lp (Transfer (Some ZeroAddress) None)
              fromBlock toBlock batchSize w = Some (logs, w2)
          \<and> getLPHolders env lp fromBlock toBlock batchSize w = Some (holders, w2)
          \<and> distinct holders
          \<and> holders = map (\<lambda>i. map args_to logs ! i)
                        (filter (\<lambda>i. map args_to logs ! i \<notin> set (take i (map args_to logs)))
                           [0..<length logs])"
    by (intro exI [of _ logs] exI [of _ "Set_of (map args_to logs)"] exI [of _ w2] conjI
          q g distinct_Set_of f)
qed

theorem discovery_first_seen_witness:
  "(0::int) < 1
   \<and> getLPPairAddresses duplicates_env 0 0 1 empty_world =
     Some ([''A'', ''B''], emit (QueryFilter factoryAddress PairCreated 0 0) empty_world)
   \<and> getLPHolders duplicates_env ''A'' 0 0 1 empty_world =
     Some ([''h1'', ''h2''],
           emit (QueryFilter ''A'' (Transfer (Some ZeroAddress) None) 0 0) empty_world)
   \<and> (\<exists>logs. queryFilterPaginated duplicates_env factoryAddress PairCreated 0 0 1 empty_world
               = Some (logs, emit (QueryFilter factoryAddress PairCreated 0 0) empty_world)
            \<and> map args_pair logs = [''A'', ''B'', ''A''])
   \<and> distinct [''A'', ''B''] \<and> distinct [''h1'', ''h2'']"
proof -
  have h: "(0::int) < 1" by simp
  have logs: "queryFilterPaginated duplicates_env factoryAddress PairCreated 0 0 1 empty_world
               = Some ([pair_log ''A'', pair_log ''B'', pair_log ''A''],
                       emit (QueryFilter factoryAddress PairCreated 0 0) empty_world)"
    by (simp add: queryFilterPaginated_def queryFilter_from_step queryFilter_from_stop
        call_queryFilter_def duplicates_env_def quiet_env_def)
  from discovery_first_seen [OF h, of duplicates_env 0 0 empty_world "''A''"]
  obtain pairs w1 holders w2 where
    "getLPPairAddresses duplicates_env 0 0 1 empty_world = Some (pairs, w1)" "distinct pairs"
    "getLPHolders duplicates_env ''A'' 0 0 1 empty_world = Some (holders, w2)" "distinct holders"
    by blast
  with dup_pairs dup_holders logs h show ?thesis
    by (simp add: pair_log_def)
qed

subsection \<open>The ranges of the batches\<close>

lemma batch_ranges_unfold:
  "current \<le> toBlock \<Longrightarrow> 0 < batchSize \<Longrightarrow>
   batch_ranges current toBlock batchSize =
     (current, min (current + batchSize - 1) toBlock)
       # batch_ranges (current + batchSize) toBlock batchSize"
  by (subst batch_ranges.simps) simp

lemma batch_ranges_empty:
  "\<not> (current \<le> toBlock \<and> 0 < batchSize) \<Longrightarrow> batch_ranges current toBlock batchSize = []"
  by (subst batch_ranges.simps) simp

lemma batch_ranges_cover:
  "0 < batchSize \<Longrightarrow>
   concat (map (\<lambda>(s, e). [s..e]) (batch_ranges current toBlock batchSize)) = [current..toBlock]"
proof (induction current toBlock batchSize rule: batch_ranges.induct)
  case (1 current toBlock batchSize)
  show ?case
  proof (cases "current \<le> toBlock")
    case False
    then show ?thesis by (simp add: batch_ranges_empty)
  next
    case True
    let ?e = "min (current + batchSize - 1) toBlock"
    have rest: "concat (map (\<lambda>(s, e). [s..e]) (batch_ranges (current + batchSize) toBlock batchSize))
                  = [current + batchSize..toBlock]"
      using "1.IH" True "1.prems" by simp
    have "[current..toBlock] = [current..?e] @ [?e + 1..toBlock]"
      using True "1.prems" by (intro upto_split2) auto
    moreover have "[?e + 1..toBlock] = [current + batchSize..toBlock]"
      by (cases "current + batchSize - 1 \<le> toBlock") (simp_all add: min_def)
    ultimately show ?thesis
      using True "1.prems" rest by (simp add: batch_ranges_unfold)
  qed
qed

lemma batch_ranges_size:
  "r \<in> set (batch_ranges current toBlock batchSize) \<Longrightarrow>
   fst r \<le> snd r \<and> snd r - fst r + 1 \<le> batchSize"
proof (induction current toBlock batchSize rule: batch_ranges.induct)
  case (1 current toBlock batchSize)
  show ?case
  proof (cases "current \<le> toBlock \<and> 0 < batchSize")
    case True
    with "1.prems" have "r = (current, min (current + batchSize - 1) toBlock)
        \<or> r \<in> set (batch_ranges (current + batchSize) toBlock batchSize)"
      by (simp add: batch_ranges_unfold)
    then show ?thesis
      using "1.IH" [OF True] True by auto
  next
    case False
    with "1.prems" show ?thesis by (simp add: batch_ranges_empty)
  qed
qed

lemma batch_ranges_hd:
  "current \<le> toBlock \<Longrightarrow> 0 < batchSize \<Longrightarrow>
   batch_ranges current toBlock batchSize \<noteq> [] \<and>
   fst (hd (batch_ranges current toBlock batchSize)) = current"
  by (simp add: batch_ranges_unfold)

lemma batch_ranges_last:
  "current \<le> toBlock \<Longrightarrow> 0 < batchSize \<Longrightarrow>
   snd (last (batch_ranges current toBlock batchSize)) = toBlock"
proof (induction current toBlock batchSize rule: batch_ranges.induct)
  case (1 current toBlock batchSize)
  show ?case
  proof (cases "current + batchSize \<le> toBlock")
    case True
    then show ?thesis
      using "1.IH" "1.prems" batch_ranges_hd [of "current + batchSize" toBlock batchSize]
      by (simp add: batch_ranges_unfold [of current])
  next
    case False
    then show ?thesis
      using "1.prems" by (simp add: batch_ranges_unfold [of current] batch_ranges_empty)
  qed
qed

lemma batch_ranges_consecutive:
  "Suc i < length (batch_ranges current toBlock batchSize) \<Longrightarrow>
   fst (batch_ranges current toBlock batchSize ! Suc i)
     = snd (batch_ranges current toBlock batchSize ! i) + 1"
proof (induction current toBlock batchSize arbitrary: i rule: batch_ranges.induct)
  case (1 current toBlock batchSize)
  have guard: "current \<le> toBlock \<and> 0 < batchSize"
    using "1.prems" by (cases "current \<le> toBlock \<and> 0 < batchSize") (simp_all add: batch_ranges_empty)
  let ?rest = "batch_ranges (current + batchSize) toBlock batchSize"
  have unf: "batch_ranges current toBlock batchSize
               = (current, min (current + batchSize - 1) toBlock) # ?rest"
    using guard by (simp add: batch_ranges_unfold)
  show ?case
  proof (cases i)
    case 0
    have "?rest \<noteq> []" using "1.prems" unfolding unf by auto
    then have next_ok: "current + batchSize \<le> toBlock"
      using guard by (cases "current + batchSize \<le> toBlock") (simp_all add: batch_ranges_empty)
    then have "fst (hd ?rest) = current + batchSize"
      using guard batch_ranges_hd by simp
    then show ?thesis
      using 0 next_ok \<open>?rest \<noteq> []\<close> unfolding unf by (simp add: hd_conv_nth)
  next
    case (Suc j)
    then show ?thesis
      using "1.IH" [OF guard, of j] "1.prems" unfolding unf by simp
  qed
qed

lemma queried_ranges_append [simp]:
  "queried_ranges c f (xs @ ys) = queried_ranges c f xs @ queried_ranges c f ys"
  by (induction c f xs rule: queried_ranges.induct) simp_all

lemma queried_ranges_batch_effects:
  "queried_ranges c f (concat (map (batch_effects env c f w) rs)) = rs"
  by (induction rs) (auto simp: batch_effects_def split: sum.splits)

lemma batch_ranges_distinct: "distinct (batch_ranges current toBlock batchSize)"
proof (induction current toBlock batchSize rule: batch_ranges.induct)
  case (1 current toBlock batchSize)
  show ?case
  proof (cases "current \<le> toBlock \<and> 0 < batchSize")
    case True
    have "(current, min (current + batchSize - 1) toBlock)
            \<notin> set (batch_ranges (current + batchSize) toBlock batchSize)"
      using batch_ranges_start [of "(current, min (current + batchSize - 1) toBlock)"
                                  "current + batchSize" toBlock batchSize] True
      by auto
    then show ?thesis
      using "1.IH" [OF True] True by (simp add: batch_ranges_unfold)
  next
    case False
    then show ?thesis by (simp add: batch_ranges_empty)
  qed
qed

lemma queryFilterPaginated_run:
  assumes "0 < batchSize"
  shows "\<exists>w'. queryFilterPaginated env c f fromBlock toBlock batchSize w =
                 Some (concat (map (batch_events env c f w)
                                (batch_ranges fromBlock toBlock batchSize)), w')
             \<and> new_effects w w' =
                 concat (map (batch_effects env c f w)
                          (batch_ranges fromBlock toBlock batchSize))"
  using queryFilter_from_run [OF assms, of env c f toBlock fromBlock "[]" w]
  by (auto simp: queryFilterPaginated_def)

lemma batch_ranges_10_25: "batch_ranges 10 25 5 = [(10, 14), (15, 19), (20, 24), (25, 25)]"
  by (simp add: batch_ranges_unfold batch_ranges_empty)

lemma batch_ranges_10_24: "batch_ranges 10 24 5 = [(10, 14), (15, 19), (20, 24)]"
  by (simp add: batch_ranges_unfold batch_ranges_empty)

subsection \<open>A batch size that is not positive\<close>

text \<open>
  The loop ends only for a positive batch size: over a non-empty block range with a batch
  size of zero or less, \<^verbatim>\<open>queryFilterPaginated\<close> never returns.
\<close>

lemma queryFilter_from_Some_positive:
  assumes "queryFilter_from env c f toBlock batchSize current events w = Some y"
  shows "current \<le> toBlock \<longrightarrow> 0 < batchSize"
proof (rule queryFilter_from.raw_induct
    [where P = "\<lambda>env c f toBlock batchSize current events w y. current \<le> toBlock \<longrightarrow> 0 < batchSize",
     OF _ assms])
  fix approx :: "env \<Rightarrow> address \<Rightarrow> event_filter \<Rightarrow> int \<Rightarrow> int \<Rightarrow> int \<Rightarrow> log list \<Rightarrow> world
                  \<Rightarrow> (log list \<times> world) option"
  fix env c f and toBlock batchSize current :: int and events w y
  assume IH: "\<And>env c f toBlock batchSize current events w y.
                approx env c f toBlock batchSize current events w = Some y \<Longrightarrow>
                current \<le> toBlock \<longrightarrow> 0 < batchSize"
     and eq: "(if current \<le> toBlock
               then let start = current; end = min (current + batchSize - 1) toBlock
                    in case call_queryFilter env c f start end w of
                         (Inl error, w1) \<Rightarrow>
                           approx env c f toBlock batchSize (current + batchSize) events
                             (console_error (ErrorQuerying start end error) w1)
                       | (Inr batch, w1) \<Rightarrow>
                           approx env c f toBlock batchSize (current + batchSize) (events @ batch) w1
               else Some (events, w)) = Some y"
  show "current \<le> toBlock \<longrightarrow> 0 < batchSize"
  proof (intro impI)
    assume le: "current \<le> toBlock"
    show "0 < batchSize"
    proof (rule ccontr)
      assume neg: "\<not> 0 < batchSize"
      then have next_le: "current + batchSize \<le> toBlock" using le by simp
      obtain r w1 where call:
        "call_queryFilter env c f current (min (current + batchSize - 1) toBlock) w = (r, w1)"
        by (cases "call_queryFilter env c f current (min (current + batchSize - 1) toBlock) w")
      from eq le call have
        "\<exists>ev wx. approx env c f toBlock batchSize (current + batchSize) ev wx = Some y"
        by (cases r) (auto simp: Let_def)
      then obtain ev wx where
        "approx env c f toBlock batchSize (current + batchSize) ev wx = Some y"
        by blast
      from IH [OF this] next_le have "0 < batchSize" by simp
      with neg show False by simp
    qed
  qed
qed

lemma queryFilterPaginated_diverges:
  "fromBlock \<le> toBlock \<Longrightarrow> batchSize \<le> 0 \<Longrightarrow>
   queryFilterPaginated env c f fromBlock toBlock batchSize w = None"
  unfolding queryFilterPaginated_def
  using queryFilter_from_Some_positive [of env c f toBlock batchSize fromBlock "[]" w]
  by (cases "queryFilter_from env c f toBlock batchSize fromBlock [] w") auto

section \<open>Pagination tiles the block range\<close>

text \<open>
  C4. For a block range with \<open>fromBlock \<le> toBlock\<close> and a positive batch size,
  \<^verbatim>\<open>queryFilterPaginated\<close> returns, and the ranges it has asked the log source for
  tile the range: listed block by block, in the order of asking, they give exactly the
  blocks from \<open>fromBlock\<close> to \<open>toBlock\<close> once each; every range is non-empty and holds at
  most \<open>batchSize\<close> blocks; each range starts one block after the one before ends; the
  first starts at \<open>fromBlock\<close> and the last is clipped to end at \<open>toBlock\<close>.
\<close>

theorem pagination_tiles_range:
  assumes "fromBlock \<le> toBlock" and "0 < batchSize"
  shows "\<exists>events w'.
           queryFilterPaginated env c f fromBlock toBlock batchSize w = Some (events, w') \<and>
           (let rs = queried_ranges c f (new_effects w w') in
              rs \<noteq> [] \<and>
              concat (map (\<lambda>(s, e). [s..e]) rs) = [fromBlock..toBlock] \<and>
              (\<forall>r \<in> set rs. fst r \<le> snd r \<and> snd r - fst r + 1 \<le> batchSize) \<and>
              (\<forall>i. Suc i < length rs \<longrightarrow> fst (rs ! Suc i) = snd (rs ! i) + 1) \<and>
              fst (hd rs) = fromBlock \<and> snd (last rs) = toBlock)"
proof -
  let ?rs = "batch_ranges fromBlock toBlock batchSize"
  from queryFilter_from_run [OF assms(2), of env c f toBlock fromBlock "[]" w]
  obtain w' where run:
    "queryFilterPaginated env c f fromBlock toBlock batchSize w
       = Some (concat (map (batch_events env c f w) ?rs), w')"
    "trace w' = trace w @ concat (map (batch_effects env c f w) ?rs)"
    by (auto simp: queryFilterPaginated_def)
  have q: "queried_ranges c f (new_effects w w') = ?rs"
    using run(2) by (simp add: queried_ranges_batch_effects)
  have "?rs \<noteq> []" "fst (hd ?rs) = fromBlock"
    using batch_ranges_hd [OF assms] by simp_all
  moreover have "concat (map (\<lambda>(s, e). [s..e]) ?rs) = [fromBlock..toBlock]"
    using batch_ranges_cover [OF assms(2)] .
  moreover have "\<forall>r \<in> set ?rs. fst r \<le> snd r \<and> snd r - fst r + 1 \<le> batchSize"
    using batch_ranges_size by blast
  moreover have "\<forall>i. Suc i < length ?rs \<longrightarrow> fst (?rs ! Suc i) = snd (?rs ! i) + 1"
    using batch_ranges_consecutive by blast
  moreover have "snd (last ?rs) = toBlock"
    using batch_ranges_last [OF assms] .
  ultimately have "let rs = queried_ranges c f (new_effects w w') in
              rs \<noteq> [] \<and>
              concat (map (\<lambda>(s, e). [s..e]) rs) = [fromBlock..toBlock] \<and>
              (\<forall>r \<in> set rs. fst r \<le> snd r \<and> snd r - fst r + 1 \<le> batchSize) \<and>
              (\<forall>i. Suc i < length rs \<longrightarrow> fst (rs ! Suc i) = snd (rs ! i) + 1) \<and>
              fst (hd rs) = fromBlock \<and> snd (last rs) = toBlock"
    unfolding q Let_def by blast
  with run(1) show ?thesis by blast
qed

theorem pagination_tiles_range_witness:
  "(10::int) \<le> 25 \<and> (0::int) < 5 \<and>
   (\<exists>events w'.
      queryFilterPaginated quiet_env factoryAddress PairCreated 10 25 5 empty_world
        = Some (events, w') \<and>
      queried_ranges factoryAddress PairCreated (new_effects empty_world w')
        = [(10, 14), (15, 19), (20, 24), (25, 25)] \<and>
      concat (map (\<lambda>(s, e). [s..e])
                (queried_ranges factoryAddress PairCreated (new_effects empty_world w')))
        = [10..25])"
proof -
  have h: "(10::int) \<le> 25" "(0::int) < 5" by simp_all
  from queryFilterPaginated_run [OF h(2), of quiet_env factoryAddress PairCreated 10 25 empty_world]
  obtain w1 where w1:
    "queryFilterPaginated quiet_env factoryAddress PairCreated 10 25 5 empty_world
       = Some (concat (map (batch_events quiet_env factoryAddress PairCreated empty_world)
                        (batch_ranges 10 25 5)), w1)"
    "new_effects empty_world w1 =
       concat (map (batch_effects quiet_env factoryAddress PairCreated empty_world)
                (batch_ranges 10 25 5))"
    by blast
  have q: "queried_ranges factoryAddress PairCreated (new_effects empty_world w1)
             = [(10, 14), (15, 19), (20, 24), (25, 25)]"
    unfolding w1(2) queried_ranges_batch_effects batch_ranges_10_25 ..
  from pagination_tiles_range [OF h, of quiet_env factoryAddress PairCreated empty_world]
  obtain events w' where w':
    "queryFilterPaginated quiet_env factoryAddress PairCreated 10 25 5 empty_world
       = Some (events, w')"
    "concat (map (\<lambda>(s, e). [s..e])
              (queried_ranges factoryAddress PairCreated (new_effects empty_world w')))
       = [10..25]"
    unfolding Let_def by blast
  have "w' = w1" using w1(1) w'(1) by simp
  then show ?thesis using h w' q by blast
qed

section \<open>A failed batch is skipped\<close>

text \<open>
  C6. For a positive batch size and whatever the log source answers, the fetch returns.
  Its result is the concatenation, in batch order, of what each batch contributes: the
  events of the answer when the query succeeds, nothing when it fails. What the fetch does
  is, batch after batch, one query for the batch, followed by one logged error when the
  query fails: the queries asked are exactly the batches of the range, none of them twice,
  so a failed batch is not asked again and the batches after it are asked all the same.
\<close>

theorem failed_batches_are_skipped:
  assumes "0 < batchSize"
  shows "\<exists>w'. queryFilterPaginated env c f fromBlock toBlock batchSize w =
                 Some (concat (map (batch_events env c f w)
                                (batch_ranges fromBlock toBlock batchSize)), w')
             \<and> new_effects w w' =
                 concat (map (batch_effects env c f w)
                          (batch_ranges fromBlock toBlock batchSize))
             \<and> queried_ranges c f (new_effects w w') = batch_ranges fromBlock toBlock batchSize
             \<and> distinct (batch_ranges fromBlock toBlock batchSize)"
proof -
  from queryFilterPaginated_run [OF assms, of env c f fromBlock toBlock w]
  obtain w' where w':
    "queryFilterPaginated env c f fromBlock toBlock batchSize w =
       Some (concat (map (batch_events env c f w) (batch_ranges fromBlock toBlock batchSize)), w')"
    "new_effects w w' =
       concat (map (batch_effects env c f w) (batch_ranges fromBlock toBlock batchSize))"
    by blast
  have "queried_ranges c f (new_effects w w') = batch_ranges fromBlock toBlock batchSize"
    unfolding w'(2) by (rule queried_ranges_batch_effects)
  with w' batch_ranges_distinct show ?thesis by blast
qed

theorem failed_batches_are_skipped_witness:
  "(0::int) < 5 \<and>
   (\<exists>w'. queryFilterPaginated failing_batch_env factoryAddress PairCreated 10 24 5 empty_world
            = Some ([pair_log ''A'', pair_log ''B''], w') \<and>
          new_effects empty_world w' =
            [QueryFilter factoryAddress PairCreated 10 14,
             QueryFilter factoryAddress PairCreated 15 19,
             ConsoleError (ErrorQuerying 15 19 (JsError (Some ''TIMEOUT''))),
             QueryFilter factoryAddress PairCreated 20 24])"
proof -
  have h: "(0::int) < 5" by simp
  have ev: "concat (map (batch_events failing_batch_env factoryAddress PairCreated empty_world)
                      (batch_ranges 10 24 5)) = [pair_log ''A'', pair_log ''B'']"
    by (simp add: batch_ranges_10_24 batch_events_def batch_outcome_def failing_batch_env_def)
  have ef: "concat (map (batch_effects failing_batch_env factoryAddress PairCreated empty_world)
                      (batch_ranges 10 24 5)) =
            [QueryFilter factoryAddress PairCreated 10 14,
             QueryFilter factoryAddress PairCreated 15 19,
             ConsoleError (ErrorQuerying 15 19 (JsError (Some ''TIMEOUT''))),
             QueryFilter factoryAddress PairCreated 20 24]"
    by (simp add: batch_ranges_10_24 batch_effects_def batch_outcome_def failing_batch_env_def)
  show ?thesis
    using failed_batches_are_skipped
            [OF h, of failing_batch_env factoryAddress PairCreated 10 24 empty_world] h
    unfolding ev ef by blast
qed

section \<open>The retry wrapper\<close>

lemma pauses_append [simp]: "pauses (xs @ ys) = pauses xs @ pauses ys"
  by (induction xs rule: pauses.induct) simp_all

lemma pauses_timeout_rounds [simp]:
  "pauses (timeout_rounds lp a delayMs attempt k) = replicate k delayMs"
  by (induction k arbitrary: attempt) simp_all

lemma count_timeout_rounds [simp]:
  "count_list (timeout_rounds lp a delayMs attempt k) (BalanceOf lp a) = k"
  by (induction k arbitrary: attempt) simp_all

lemma fetchBalance_from_timeouts:
  assumes "attempt + int k \<le> retries"
      and "\<forall>i<k. \<exists>e. rpc_balanceOf env lp a (count_list (trace w) (BalanceOf lp a) + i) = Inl e
                      \<and> is_timeout e"
  shows "fetchBalance_from env lp a retries delayMs attempt w =
           fetchBalance_from env lp a retries delayMs (attempt + int k)
             (w\<lparr>trace := trace w @ timeout_rounds lp a delayMs attempt k\<rparr>)"
  using assms
proof (induction k arbitrary: attempt w)
  case 0
  show ?case by simp
next
  case (Suc k)
  from Suc.prems(2) obtain e where
    e: "rpc_balanceOf env lp a (count_list (trace w) (BalanceOf lp a)) = Inl e" "is_timeout e"
    by fastforce
  let ?w1 = "sleep delayMs (console_error (AttemptTimeout attempt a) (emit (BalanceOf lp a) w))"
  have step: "fetchBalance_from env lp a retries delayMs attempt w =
              fetchBalance_from env lp a retries delayMs (attempt + 1) ?w1"
    using e Suc.prems(1)
    by (subst fetchBalance_from.simps) (simp add: call_balanceOf_def Let_def)
  have later: "\<forall>i<k. \<exists>e. rpc_balanceOf env lp a (count_list (trace ?w1) (BalanceOf lp a) + i) = Inl e
                      \<and> is_timeout e"
    using Suc.prems(2) by (auto simp: less_Suc_eq_0_disj)
  have w1: "?w1\<lparr>trace := trace ?w1 @ timeout_rounds lp a delayMs (attempt + 1) k\<rparr>
          = w\<lparr>trace := trace w @ timeout_rounds lp a delayMs attempt (Suc k)\<rparr>"
    by (simp add: sleep_def console_error_def emit_def)
  have le: "attempt + 1 + int k \<le> retries"
    using Suc.prems(1) by simp
  have eq: "attempt + 1 + int k = attempt + int (Suc k)"
    by simp
  show ?case
    using Suc.IH [OF le later] unfolding step w1 eq .
qed

lemma trace_empty_world: "trace empty_world = []"
  by (simp add: empty_world_def)

lemma flaky_h1:
  "fetchBalanceWithRetries flaky_env ''A'' ''h1'' 3 2000 empty_world =
     (Inr (Some 7),
      \<lparr>trace = [BalanceOf ''A'' ''h1'', ConsoleError (AttemptTimeout 1 ''h1''), Sleep 2000,
                BalanceOf ''A'' ''h1'', ConsoleError (AttemptTimeout 2 ''h1''), Sleep 2000,
                BalanceOf ''A'' ''h1''],
       files = Map.empty\<rparr>)"
  by (simp add: fetchBalanceWithRetries_def fetchBalance_from.simps call_balanceOf_def
      flaky_env_def quiet_env_def empty_world_def is_timeout_def emit_def console_error_def
      sleep_def)

lemma flaky_h2:
  "fetchBalanceWithRetries flaky_env ''A'' ''h2'' 3 2000 empty_world =
     (Inl (JsError (Some ''CALL_EXCEPTION'')),
      \<lparr>trace = [BalanceOf ''A'' ''h2'', ConsoleError (AttemptTimeout 1 ''h2''), Sleep 2000,
                BalanceOf ''A'' ''h2''],
       files = Map.empty\<rparr>)"
  by (simp add: fetchBalanceWithRetries_def fetchBalance_from.simps call_balanceOf_def
      flaky_env_def quiet_env_def empty_world_def is_timeout_def emit_def console_error_def
      sleep_def)

lemma flaky_h3:
  "fetchBalanceWithRetries flaky_env ''A'' ''h3'' 3 2000 empty_world =
     (Inl (JsError (Some ''TIMEOUT'')),
      \<lparr>trace = [BalanceOf ''A'' ''h3'', ConsoleError (AttemptTimeout 1 ''h3''), Sleep 2000,
                BalanceOf ''A'' ''h3'', ConsoleError (AttemptTimeout 2 ''h3''), Sleep 2000,
                BalanceOf ''A'' ''h3'', ConsoleError (AttemptTimeout 3 ''h3'')],
       files = Map.empty\<rparr>)"
  by (simp add: fetchBalanceWithRetries_def fetchBalance_from.simps call_balanceOf_def
      flaky_env_def quiet_env_def empty_world_def is_timeout_def emit_def console_error_def
      sleep_def)

text \<open>
  C3, as the claim states it, fails: when a read that times out is followed by a read
  that fails for another reason, \<^verbatim>\<open>fetchBalanceWithRetries\<close> throws that error after
  one pause, not after none.
\<close>

theorem retry_wrapper_counterexample:
  "fst (fetchBalanceWithRetries flaky_env ''A'' ''h2'' 3 2000 empty_world)
     = Inl (JsError (Some ''CALL_EXCEPTION''))
   \<and> \<not> is_timeout (JsError (Some ''CALL_EXCEPTION''))
   \<and> pauses (new_effects empty_world
               (snd (fetchBalanceWithRetries flaky_env ''A'' ''h2'' 3 2000 empty_world)))
     = [2000]
   \<and> pauses (new_effects empty_world
               (snd (fetchBalanceWithRetries flaky_env ''A'' ''h2'' 3 2000 empty_world)))
     \<noteq> []"
  by (simp add: flaky_h2 new_effects_def is_timeout_def trace_empty_world)

text \<open>
  C3, amended. Let the first \<open>N\<close> reads time out, with \<open>N + 1 \<le> retries\<close>. If the next
  read succeeds, the wrapper returns its value after exactly \<open>N\<close> pauses of \<open>delayMs\<close>.
  If the next read fails with an error that is not a timeout, the wrapper throws that error
  at once: the failed read is the last thing it does, and the pauses are the \<open>N\<close> made
  after the timeouts before it, none when the error comes on the first attempt. If the
  next read times out too and was the last attempt allowed, the wrapper logs it and throws
  that last error, again after \<open>N\<close> pauses.
\<close>

theorem retry_wrapper:
  fixes N :: nat
  assumes "int N + 1 \<le> retries"
      and "\<forall>k<N. \<exists>e. rpc_balanceOf env lp a (count_list (trace w) (BalanceOf lp a) + k) = Inl e
                      \<and> is_timeout e"
  shows "(rpc_balanceOf env lp a (count_list (trace w) (BalanceOf lp a) + N) = Inr v \<longrightarrow>
            (\<exists>w'. fetchBalanceWithRetries env lp a retries delayMs w = (Inr (Some v), w')
                 \<and> new_effects w w' = timeout_rounds lp a delayMs 1 N @ [BalanceOf lp a]
                 \<and> pauses (new_effects w w') = replicate N delayMs))
       \<and> (rpc_balanceOf env lp a (count_list (trace w) (BalanceOf lp a) + N) = Inl err
            \<and> \<not> is_timeout err \<longrightarrow>
            (\<exists>w'. fetchBalanceWithRetries env lp a retries delayMs w = (Inl err, w')
                 \<and> new_effects w w' = timeout_rounds lp a delayMs 1 N @ [BalanceOf lp a]
                 \<and> pauses (new_effects w w') = replicate N delayMs))
       \<and> (rpc_balanceOf env lp a (count_list (trace w) (BalanceOf lp a) + N) = Inl err
            \<and> is_timeout err \<and> int N + 1 = retries \<longrightarrow>
            (\<exists>w'. fetchBalanceWithRetries env lp a retries delayMs w = (Inl err, w')
                 \<and> new_effects w w' = timeout_rounds lp a delayMs 1 N
                      @ [BalanceOf lp a, ConsoleError (AttemptTimeout retries a)]
                 \<and> pauses (new_effects w w') = replicate N delayMs))"
proof -
  let ?wN = "w\<lparr>trace := trace w @ timeout_rounds lp a delayMs 1 N\<rparr>"
  have run: "fetchBalanceWithRetries env lp a retries delayMs w =
             fetchBalance_from env lp a retries delayMs (1 + int N) ?wN"
    unfolding fetchBalanceWithRetries_def
    using fetchBalance_from_timeouts [of 1 N retries env lp a w delayMs] assms by simp
  have cnt: "count_list (trace ?wN) (BalanceOf lp a) = count_list (trace w) (BalanceOf lp a) + N"
    by simp
  have le: "1 + int N \<le> retries" using assms(1) by simp
  show ?thesis
  proof (intro conjI impI)
    assume "rpc_balanceOf env lp a (count_list (trace w) (BalanceOf lp a) + N) = Inr v"
    then have "fetchBalance_from env lp a retries delayMs (1 + int N) ?wN
                 = (Inr (Some v), emit (BalanceOf lp a) ?wN)"
      using le by (subst fetchBalance_from.simps) (simp add: call_balanceOf_def cnt)
    then show "\<exists>w'. fetchBalanceWithRetries env lp a retries delayMs w = (Inr (Some v), w')
                 \<and> new_effects w w' = timeout_rounds lp a delayMs 1 N @ [BalanceOf lp a]
                 \<and> pauses (new_effects w w') = replicate N delayMs"
      unfolding run by (intro exI [of _ "emit (BalanceOf lp a) ?wN"]) (simp add: new_effects_def)
  next
    assume "rpc_balanceOf env lp a (count_list (trace w) (BalanceOf lp a) + N) = Inl err
            \<and> \<not> is_timeout err"
    then have "fetchBalance_from env lp a retries delayMs (1 + int N) ?wN
                 = (Inl err, emit (BalanceOf lp a) ?wN)"
      using le by (subst fetchBalance_from.simps) (simp add: call_balanceOf_def cnt)
    then show "\<exists>w'. fetchBalanceWithRetries env lp a retries delayMs w = (Inl err, w')
                 \<and> new_effects w w' = timeout_rounds lp a delayMs 1 N @ [BalanceOf lp a]
                 \<and> pauses (new_effects w w') = replicate N delayMs"
      unfolding run by (intro exI [of _ "emit (BalanceOf lp a) ?wN"]) (simp add: new_effects_def)
  next
    assume a: "rpc_balanceOf env lp a (count_list (trace w) (BalanceOf lp a) + N) = Inl err
            \<and> is_timeout err \<and> int N + 1 = retries"
    let ?w' = "console_error (AttemptTimeout retries a) (emit (BalanceOf lp a) ?wN)"
    from a have "fetchBalance_from env lp a retries delayMs (1 + int N) ?wN = (Inl err, ?w')"
      using le
      by (subst fetchBalance_from.simps) (auto simp add: call_balanceOf_def cnt Let_def)
    then show "\<exists>w'. fetchBalanceWithRetries env lp a retries delayMs w = (Inl err, w')
                 \<and> new_effects w w' = timeout_rounds lp a delayMs 1 N
                      @ [BalanceOf lp a, ConsoleError (AttemptTimeout retries a)]
                 \<and> pauses (new_effects w w') = replicate N delayMs"
      unfolding run by (intro exI [of _ ?w']) (simp add: new_effects_def)
  qed
qed

theorem retry_wrapper_witness:
  "(\<exists>w'. fetchBalanceWithRetries flaky_env ''A'' ''h1'' 3 2000 empty_world = (Inr (Some 7), w')
         \<and> pauses (new_effects empty_world w') = [2000, 2000])
   \<and> (\<exists>w'. fetchBalanceWithRetries flaky_env ''A'' ''h2'' 3 2000 empty_world
              = (Inl (JsError (Some ''CALL_EXCEPTION'')), w')
         \<and> pauses (new_effects empty_world w') = [2000])
   \<and> (\<exists>w'. fetchBalanceWithRetries flaky_env ''A'' ''h3'' 3 2000 empty_world
              = (Inl (JsError (Some ''TIMEOUT'')), w')
         \<and> pauses (new_effects empty_world w') = [2000, 2000])"
proof -
  have t1: "\<forall>k<2. \<exists>e. rpc_balanceOf flaky_env ''A'' ''h1''
                (count_list (trace empty_world) (BalanceOf ''A'' ''h1'') + k) = Inl e \<and> is_timeout e"
    by (simp add: flaky_env_def quiet_env_def empty_world_def is_timeout_def)
  have t2: "\<forall>k<1. \<exists>e. rpc_balanceOf flaky_env ''A'' ''h2''
                (count_list (trace empty_world) (BalanceOf ''A'' ''h2'') + k) = Inl e \<and> is_timeout e"
    by (simp add: flaky_env_def quiet_env_def empty_world_def is_timeout_def)
  have t3: "\<forall>k<2. \<exists>e. rpc_balanceOf flaky_env ''A'' ''h3''
                (count_list (trace empty_world) (BalanceOf ''A'' ''h3'') + k) = Inl e \<and> is_timeout e"
    by (simp add: flaky_env_def quiet_env_def empty_world_def is_timeout_def)
  have n1: "rpc_balanceOf flaky_env ''A'' ''h1''
              (count_list (trace empty_world) (BalanceOf ''A'' ''h1'') + 2) = Inr 7"
    by (simp add: flaky_env_def quiet_env_def empty_world_def)
  have n2: "rpc_balanceOf flaky_env ''A'' ''h2''
              (count_list (trace empty_world) (BalanceOf ''A'' ''h2'') + 1)
              = Inl (JsError (Some ''CALL_EXCEPTION''))
            \<and> \<not> is_timeout (JsError (Some ''CALL_EXCEPTION''))"
    by (simp add: flaky_env_def quiet_env_def empty_world_def is_timeout_def)
  have n3: "rpc_balanceOf flaky_env ''A'' ''h3''
              (count_list (trace empty_world) (BalanceOf ''A'' ''h3'') + 2)
              = Inl (JsError (Some ''TIMEOUT''))
            \<and> is_timeout (JsError (Some ''TIMEOUT'')) \<and> int 2 + 1 = 3"
    by (simp add: flaky_env_def quiet_env_def empty_world_def is_timeout_def)
  have r: "replicate 2 (2000::int) = [2000, 2000]" "replicate 1 (2000::int) = [2000]"
    by (simp_all add: eval_nat_numeral)
  have le: "int 2 + 1 \<le> 3" "int 1 + 1 \<le> 3" by simp_all
  from retry_wrapper [OF le(1) t1, where v = 7 and delayMs = 2000] n1
  have a: "\<exists>w'. fetchBalanceWithRetries flaky_env ''A'' ''h1'' 3 2000 empty_world = (Inr (Some 7), w')
         \<and> pauses (new_effects empty_world w') = [2000, 2000]"
    unfolding r by blast
  from retry_wrapper [OF le(2) t2, where err = "JsError (Some ''CALL_EXCEPTION'')" and delayMs = 2000] n2
  have b: "\<exists>w'. fetchBalanceWithRetries flaky_env ''A'' ''h2'' 3 2000 empty_world
              = (Inl (JsError (Some ''CALL_EXCEPTION'')), w')
         \<and> pauses (new_effects empty_world w') = [2000]"
    unfolding r by blast
  from retry_wrapper [OF le(1) t3, where err = "JsError (Some ''TIMEOUT'')" and delayMs = 2000] n3
  have c: "\<exists>w'. fetchBalanceWithRetries flaky_env ''A'' ''h3'' 3 2000 empty_world
              = (Inl (JsError (Some ''TIMEOUT'')), w')
         \<and> pauses (new_effects empty_world w') = [2000, 2000]"
    unfolding r by blast
  from a b c show ?thesis by blast
qed

section \<open>Holder qualification\<close>

lemma checkLPHolderValue_from_Cons:
  "checkLPHolderValue_from env lp price decimals (a # hs) q w =
     checkLPHolderValue_from env lp price decimals hs
       (q @ fst (holder_step env lp price decimals a w))
       (snd (holder_step env lp price decimals a w))"
  by (simp add: holder_step_def Let_def split: prod.split sum.split option.split)

lemma checkLPHolderValue_from_acc:
  "checkLPHolderValue_from env lp price decimals hs q w =
     (q @ fst (checkLPHolderValue_from env lp price decimals hs [] w),
      snd (checkLPHolderValue_from env lp price decimals hs [] w))"
proof (induction hs arbitrary: q w)
  case Nil
  show ?case by simp
next
  case (Cons a hs)
  show ?case
    unfolding checkLPHolderValue_from_Cons
    by (subst Cons.IH, subst (2 3) Cons.IH) simp
qed

lemma checkLPHolderValue_append:
  "checkLPHolderValue env lp (xs @ ys) price decimals w =
     (fst (checkLPHolderValue env lp xs price decimals w)
        @ fst (checkLPHolderValue env lp ys price decimals
                 (snd (checkLPHolderValue env lp xs price decimals w))),
      snd (checkLPHolderValue env lp ys price decimals
             (snd (checkLPHolderValue env lp xs price decimals w))))"
  unfolding checkLPHolderValue_def
proof (induction xs arbitrary: w)
  case Nil
  show ?case by simp
next
  case (Cons a xs)
  let ?s = "holder_step env lp price decimals a w"
  have unf: "\<And>zs. checkLPHolderValue_from env lp price decimals (a # zs) [] w =
               (fst ?s @ fst (checkLPHolderValue_from env lp price decimals zs [] (snd ?s)),
                snd (checkLPHolderValue_from env lp price decimals zs [] (snd ?s)))"
    unfolding checkLPHolderValue_from_Cons append_Nil by (rule checkLPHolderValue_from_acc)
  show ?case
    unfolding append_Cons unf using Cons.IH [of "snd ?s"] by simp
qed

lemma holder_step_subseq:
  "subseq (map holderAddress (fst (holder_step env lp price decimals a w))) [a]"
  by (simp add: holder_step_def Let_def split: prod.split sum.split option.split)

lemma checkLPHolderValue_subseq:
  "subseq (map holderAddress (fst (checkLPHolderValue env lp hs price decimals w))) hs"
  unfolding checkLPHolderValue_def
proof (induction hs arbitrary: w)
  case Nil
  show ?case by simp
next
  case (Cons a hs)
  have "subseq (map holderAddress (fst (holder_step env lp price decimals a w))
                @ map holderAddress (fst (checkLPHolderValue_from env lp price decimals hs []
                     (snd (holder_step env lp price decimals a w)))))
               ([a] @ hs)"
    by (intro list_emb_append_mono holder_step_subseq Cons.IH)
  moreover have "checkLPHolderValue_from env lp price decimals (a # hs) [] w =
      (fst (holder_step env lp price decimals a w)
         @ fst (checkLPHolderValue_from env lp price decimals hs []
                  (snd (holder_step env lp price decimals a w))),
       snd (checkLPHolderValue_from env lp price decimals hs []
                  (snd (holder_step env lp price decimals a w))))"
    unfolding checkLPHolderValue_from_Cons append_Nil by (rule checkLPHolderValue_from_acc)
  ultimately show ?case by simp
qed

lemma holders_pre:
  "checkLPHolderValue holders_env ''A'' [''h0''] 5 18 empty_world =
     ([\<lparr>lpAddress = ''A'', holderAddress = ''h0'', balance = 2000, holdingValue = 10000\<rparr>], w_h0)"
  by (simp add: checkLPHolderValue_def fetchBalanceWithRetries_def fetchBalance_from.simps
      call_balanceOf_def holders_env_def quiet_env_def empty_world_def w_h0_def emit_def)

lemma holders_read:
  "fetchBalanceWithRetries holders_env ''A'' ''h1'' 3 2000 w_h0 = (Inr (Some (1000 * 10 ^ 18)), w_h1)"
  by (simp add: fetchBalanceWithRetries_def fetchBalance_from.simps
      call_balanceOf_def holders_env_def quiet_env_def w_h0_def w_h1_def emit_def)

lemma holders_post:
  "checkLPHolderValue holders_env ''A'' [''h2''] 5 18 w_h1 = ([], w_h2)"
  by (simp add: checkLPHolderValue_def fetchBalanceWithRetries_def fetchBalance_from.simps
      call_balanceOf_def holders_env_def quiet_env_def w_h1_def w_h2_def emit_def)

text \<open>
  C5. Take any holder \<open>a\<close> of the input list, the holders \<open>pre\<close> before it and the
  holders \<open>post\<close> after it, and let the balance read for \<open>a\<close> succeed with
  \<open>balanceBN\<close>. Then the output of \<^verbatim>\<open>checkLPHolderValue\<close> is the records for \<open>pre\<close>,
  then the record of \<open>a\<close> if and only if its holding value is at least 5000 (so a
  holding value of exactly 5000 is included, and one below 5000 is not), then the records
  for \<open>post\<close>. The holding value is the number the program computes: the product, as
  doubles multiply, of the balance as \<^verbatim>\<open>parseFloat(formatUnits(..))\<close> returns it and the
  price per token; the statement holds whatever these two operations round to. The
  records for \<open>pre\<close> and for \<open>post\<close> name holders of these lists in the order of the
  lists, so the output is in the order of the input.
\<close>

theorem holder_qualification:
  assumes "checkLPHolderValue env lp pre price decimals w = (q1, w1)"
      and "fetchBalanceWithRetries env lp a 3 2000 w1 = (Inr (Some balanceBN), w2)"
      and "checkLPHolderValue env lp post price decimals w2 = (q2, w3)"
  shows "checkLPHolderValue env lp (pre @ a # post) price decimals w =
           (q1 @ (if Number_times env (parseFloat_formatUnits env balanceBN decimals) price
                       \<ge> 5000
                  then [\<lparr>lpAddress = lp, holderAddress = a,
                          balance = parseFloat_formatUnits env balanceBN decimals,
                          holdingValue =
                            Number_times env (parseFloat_formatUnits env balanceBN decimals)
                              price\<rparr>]
                  else []) @ q2, w3)
         \<and> subseq (map holderAddress q1) pre \<and> subseq (map holderAddress q2) post"
proof -
  have one: "checkLPHolderValue env lp [a] price decimals w1 =
               (if Number_times env (parseFloat_formatUnits env balanceBN decimals) price
                     \<ge> 5000
                then [\<lparr>lpAddress = lp, holderAddress = a,
                        balance = parseFloat_formatUnits env balanceBN decimals,
                        holdingValue =
                          Number_times env (parseFloat_formatUnits env balanceBN decimals)
                            price\<rparr>]
                else [], w2)"
    using assms(2) by (simp add: checkLPHolderValue_def Let_def)
  have "checkLPHolderValue env lp (pre @ [a] @ post) price decimals w =
           (q1 @ (if Number_times env (parseFloat_formatUnits env balanceBN decimals) price
                       \<ge> 5000
                  then [\<lparr>lpAddress = lp, holderAddress = a,
                          balance = parseFloat_formatUnits env balanceBN decimals,
                          holdingValue =
                            Number_times env (parseFloat_formatUnits env balanceBN decimals)
                              price\<rparr>]
                  else []) @ q2, w3)"
    by (subst checkLPHolderValue_append, subst (1 2) checkLPHolderValue_append)
       (simp add: assms(1,3) one)
  moreover have "subseq (map holderAddress q1) pre"
    using checkLPHolderValue_subseq [of env lp pre price decimals w] assms(1) by simp
  moreover have "subseq (map holderAddress q2) post"
    using checkLPHolderValue_subseq [of env lp post price decimals w2] assms(3) by simp
  ultimately show ?thesis by simp
qed

theorem holder_qualification_witness:
  "checkLPHolderValue holders_env ''A'' [''h0''] 5 18 empty_world =
     ([\<lparr>lpAddress = ''A'', holderAddress = ''h0'', balance = 2000, holdingValue = 10000\<rparr>], w_h0)
   \<and> fetchBalanceWithRetries holders_env ''A'' ''h1'' 3 2000 w_h0
       = (Inr (Some (1000 * 10 ^ 18)), w_h1)
   \<and> checkLPHolderValue holders_env ''A'' [''h2''] 5 18 w_h1 = ([], w_h2)
   \<and> Number_times holders_env (parseFloat_formatUnits holders_env (1000 * 10 ^ 18) 18) 5 = 5000
   \<and> checkLPHolderValue holders_env ''A'' [''h0'', ''h1'', ''h2''] 5 18 empty_world =
     ([\<lparr>lpAddress = ''A'', holderAddress = ''h0'', balance = 2000, holdingValue = 10000\<rparr>,
       \<lparr>lpAddress = ''A'', holderAddress = ''h1'', balance = 1000, holdingValue = 5000\<rparr>], w_h2)"
  using holder_qualification [OF holders_pre holders_read holders_post]
    holders_pre holders_read holders_post
  by (simp add: holders_env_def quiet_env_def)

section \<open>What a run does, and to which pool\<close>

lemma extends_refl [simp]: "extends Q w w"
  by (simp add: extends_def)

lemma extends_trans: "extends Q w w1 \<Longrightarrow> extends Q w1 w2 \<Longrightarrow> extends Q w w2"
  by (auto simp: extends_def)

lemma extends_emit: "Q e \<Longrightarrow> extends Q w (emit e w)"
  by (simp add: extends_def)

lemma extends_emit_trans: "extends Q w w1 \<Longrightarrow> Q e \<Longrightarrow> extends Q w (emit e w1)"
  by (auto simp: extends_def)

lemma extends_new_effects: "extends Q w w' \<Longrightarrow> list_all Q (new_effects w w')"
  by (auto simp: extends_def)

lemma csv_grows_refl [simp]: "csv_grows w w"
  by (simp add: csv_grows_def)

lemma csv_grows_trans: "csv_grows w w1 \<Longrightarrow> csv_grows w1 w2 \<Longrightarrow> csv_grows w w2"
  by (fastforce simp: csv_grows_def)

lemma csv_grows_same: "files w' = files w \<Longrightarrow> csv_grows w w'"
  by (simp add: csv_grows_def)

lemma fetchBalance_from_effects:
  "extends (pool_effect env lp) w (snd (fetchBalance_from env lp a retries delayMs attempt w))
   \<and> files (snd (fetchBalance_from env lp a retries delayMs attempt w)) = files w"
proof (induction env lp a retries delayMs attempt w rule: fetchBalance_from.induct)
  case (1 env lp a retries delayMs attempt w)
  show ?case
  proof (cases "attempt \<le> retries")
    case False
    then show ?thesis by (subst (1 2) fetchBalance_from.simps) simp
  next
    case True
    show ?thesis
    proof (cases "rpc_balanceOf env lp a (count_list (trace w) (BalanceOf lp a))")
      case (Inr balanceBN)
      then show ?thesis
        using True
        by (subst (1 2) fetchBalance_from.simps) (simp add: call_balanceOf_def extends_emit)
    next
      case (Inl error)
      let ?w1 = "emit (BalanceOf lp a) w"
      let ?w2 = "console_error (AttemptTimeout attempt a) ?w1"
      show ?thesis
      proof (cases "is_timeout error \<and> attempt < retries")
        case False
        then show ?thesis
          using True Inl
          by (subst (1 2) fetchBalance_from.simps)
             (auto simp: call_balanceOf_def Let_def extends_def console_error_def)
      next
        case rec: True
        have call: "call_balanceOf env lp a w = (Inl error, ?w1)"
          using Inl by (simp add: call_balanceOf_def)
        have unf: "fetchBalance_from env lp a retries delayMs attempt w =
                   fetchBalance_from env lp a retries delayMs (attempt + 1) (sleep delayMs ?w2)"
          using True rec call by (subst fetchBalance_from.simps) (simp add: Let_def)
        have IH: "extends (pool_effect env lp) (sleep delayMs ?w2)
                    (snd (fetchBalance_from env lp a retries delayMs (attempt + 1) (sleep delayMs ?w2)))
                \<and> files (snd (fetchBalance_from env lp a retries delayMs (attempt + 1) (sleep delayMs ?w2)))
                    = files (sleep delayMs ?w2)"
          using "1.IH" [OF True call [symmetric] refl _ refl] rec by simp
        have "extends (pool_effect env lp) w (sleep delayMs ?w2)"
          by (simp add: extends_def)
        then show ?thesis
          unfolding unf using IH extends_trans by fastforce
      qed
    qed
  qed
qed

lemma extends_mono: "extends Q w w' \<Longrightarrow> (\<And>e. Q e \<Longrightarrow> Q' e) \<Longrightarrow> extends Q' w w'"
  by (auto simp: extends_def list_all_iff)

lemma fetchBalanceWithRetries_effects:
  "fetchBalanceWithRetries env lp a retries delayMs w = (r, w') \<Longrightarrow>
   extends (pool_effect env lp) w w' \<and> files w' = files w"
  using fetchBalance_from_effects [of env lp w a retries delayMs 1]
  by (simp add: fetchBalanceWithRetries_def)

lemma holder_step_effects:
  assumes "holder_step env lp price decimals a w = (q, w')"
  shows "extends (pool_effect env lp) w w' \<and> files w' = files w
         \<and> list_all (\<lambda>r. lpAddress r = lp) q"
proof -
  obtain r w1 where f: "fetchBalanceWithRetries env lp a 3 2000 w = (r, w1)"
    by (cases "fetchBalanceWithRetries env lp a 3 2000 w")
  note e = fetchBalanceWithRetries_effects [OF f]
  have e1: "\<And>m. extends (pool_effect env lp) w (console_error m w1)"
    using e by (auto simp: console_error_def intro: extends_emit_trans)
  show ?thesis
    using assms f e e1
    by (auto simp: holder_step_def Let_def split: sum.splits option.splits if_splits)
qed

lemma checkLPHolderValue_from_effects:
  "checkLPHolderValue_from env lp price decimals hs q w = (q', w') \<Longrightarrow>
   list_all (\<lambda>r. lpAddress r = lp) q \<Longrightarrow>
   extends (pool_effect env lp) w w' \<and> files w' = files w
   \<and> list_all (\<lambda>r. lpAddress r = lp) q'"
proof (induction hs arbitrary: q w)
  case Nil
  then show ?case by simp
next
  case (Cons a hs)
  obtain q1 w1 where s: "holder_step env lp price decimals a w = (q1, w1)"
    by (cases "holder_step env lp price decimals a w")
  note e = holder_step_effects [OF s]
  have rest: "checkLPHolderValue_from env lp price decimals hs (q @ q1) w1 = (q', w')"
    using Cons.prems(1) s by (simp only: checkLPHolderValue_from_Cons fst_conv snd_conv)
  have "list_all (\<lambda>r. lpAddress r = lp) (q @ q1)"
    using Cons.prems(2) e by simp
  from Cons.IH [OF rest this] e show ?case
    using extends_trans by fastforce
qed

lemma checkLPHolderValue_effects:
  "checkLPHolderValue env lp hs price decimals w = (q', w') \<Longrightarrow>
   extends (pool_effect env lp) w w' \<and> files w' = files w
   \<and> list_all (\<lambda>r. lpAddress r = lp) q'"
  using checkLPHolderValue_from_effects [of env lp price decimals hs "[]" w q' w']
  by (simp add: checkLPHolderValue_def)

lemma getLiquidityPoolValue_effects:
  "getLiquidityPoolValue env lp decimals w = (v, w') \<Longrightarrow>
   extends (pool_effect env lp) w w' \<and> files w' = files w"
  by (auto simp: getLiquidityPoolValue_def call_totalSupply_def Let_def extends_def
      split: sum.splits)

lemma list_all_batch_effects:
  "(\<And>s e. Q (QueryFilter c f s e)) \<Longrightarrow> (\<And>m. Q (ConsoleError m)) \<Longrightarrow>
   list_all Q (concat (map (batch_effects env c f w) rs))"
  by (induction rs) (auto simp: batch_effects_def split: sum.splits)

lemma getLPHolders_effects:
  assumes "0 < batchSize"
  shows "\<exists>holders w'. getLPHolders env lp fromBlock toBlock batchSize w = Some (holders, w')
           \<and> extends (pool_effect env lp) w w' \<and> files w' = files w"
proof -
  from queryFilter_from_run [OF assms, of env lp "Transfer (Some ZeroAddress) None"
      toBlock fromBlock "[]" w]
  obtain w' where w':
    "queryFilterPaginated env lp (Transfer (Some ZeroAddress) None) fromBlock toBlock batchSize w
       = Some (concat (map (batch_events env lp (Transfer (Some ZeroAddress) None) w)
                        (batch_ranges fromBlock toBlock batchSize)), w')"
    "trace w' = trace w @ concat (map (batch_effects env lp (Transfer (Some ZeroAddress) None) w)
                                    (batch_ranges fromBlock toBlock batchSize))"
    "files w' = files w"
    by (auto simp: queryFilterPaginated_def)
  have "extends (pool_effect env lp) w w'"
    unfolding extends_def using w'(2) by (auto intro!: list_all_batch_effects)
  then show ?thesis
    using w'(1,3) by (simp add: getLPHolders_def)
qed

lemma getLPPairAddresses_effects:
  assumes "0 < batchSize"
  shows "\<exists>pairs w'. getLPPairAddresses env fromBlock toBlock batchSize w = Some (pairs, w')
           \<and> extends prelude_effect w w' \<and> files w' = files w"
proof -
  from queryFilter_from_run [OF assms, of env factoryAddress PairCreated toBlock fromBlock "[]" w]
  obtain w' where w':
    "queryFilterPaginated env factoryAddress PairCreated fromBlock toBlock batchSize w
       = Some (concat (map (batch_events env factoryAddress PairCreated w)
                        (batch_ranges fromBlock toBlock batchSize)), w')"
    "trace w' = trace w @ concat (map (batch_effects env factoryAddress PairCreated w)
                                    (batch_ranges fromBlock toBlock batchSize))"
    "files w' = files w"
    by (auto simp: queryFilterPaginated_def)
  have "extends prelude_effect w w'"
    unfolding extends_def using w'(2) by (auto intro!: list_all_batch_effects)
  then show ?thesis
    using w'(1,3) by (simp add: getLPPairAddresses_def)
qed

lemma filenames_differ [simp]:
  "CSV_FILENAME \<noteq> CHECKPOINT_FILENAME" "CHECKPOINT_FILENAME \<noteq> CSV_FILENAME"
  by (simp_all add: CSV_FILENAME_def CHECKPOINT_FILENAME_def)

lemma saveCheckpoint_effects:
  "saveCheckpoint env CHECKPOINT_FILENAME cp w = (r, w') \<Longrightarrow>
   extends (pool_effect env lp) w w' \<and> csv_grows w w'"
  by (auto simp: saveCheckpoint_def writeFileSync_def extends_def csv_grows_def
      split: option.splits)

lemma appendRecordsToCSV_effects:
  assumes "appendRecordsToCSV env records CSV_FILENAME w = (r, w')"
      and "records \<noteq> []" and "list_all (\<lambda>r. lpAddress r = lp) records"
  shows "extends (pool_effect env lp) w w' \<and> csv_grows w w'"
proof -
  have rows: "pool_effect env lp (AppendFile CSV_FILENAME (csv_rows env records))"
    using assms(2,3) by auto
  show ?thesis
    using assms(1) rows
    by (auto simp: appendRecordsToCSV_def writeFileSync_def appendFileSync_def existsSync_def
        extends_def csv_grows_def split: option.splits if_splits)
qed

lemma process_pair_effects:
  assumes "0 < batchSize"
  shows "\<exists>r cp' w'. process_pair env fromBlock toBlock batchSize lp cp w = Some (r, cp', w')
           \<and> extends (pool_effect env lp) w w' \<and> csv_grows w w'"
proof -
  obtain poolValue w1 where v: "getLiquidityPoolValue env lp 18 w = (poolValue, w1)"
    by (cases "getLiquidityPoolValue env lp 18 w")
  note e1 = getLiquidityPoolValue_effects [OF v]
  show ?thesis
  proof (cases "poolValue \<ge> 20000")
    case True
    obtain r w2 where s: "saveCheckpoint env CHECKPOINT_FILENAME (cp @ [lp]) w1 = (r, w2)"
      by (cases "saveCheckpoint env CHECKPOINT_FILENAME (cp @ [lp]) w1")
    note e2 = saveCheckpoint_effects [OF s, of lp]
    have "process_pair env fromBlock toBlock batchSize lp cp w = Some (r, cp @ [lp], w2)"
      using v True s by (simp add: process_pair_def Let_def)
    moreover have "extends (pool_effect env lp) w w2"
      using e1 e2 extends_trans by blast
    moreover have "csv_grows w w2"
      using e1 e2 csv_grows_trans csv_grows_same by blast
    ultimately show ?thesis by blast
  next
    case False
    from getLPHolders_effects [OF assms, of env lp fromBlock toBlock w1]
    obtain holders w2 where h:
      "getLPHolders env lp fromBlock toBlock batchSize w1 = Some (holders, w2)"
      "extends (pool_effect env lp) w1 w2" "files w2 = files w1"
      by blast
    obtain q w3 where c: "checkLPHolderValue env lp holders (getLPTokenUSDValue lp) 18 w2 = (q, w3)"
      by (cases "checkLPHolderValue env lp holders (getLPTokenUSDValue lp) 18 w2")
    note e3 = checkLPHolderValue_effects [OF c]
    have x3: "extends (pool_effect env lp) w w3"
      using e1 h(2) e3 extends_trans by blast
    have g3: "csv_grows w w3"
      using e1 h(3) e3 by (simp add: csv_grows_def)
    obtain ra w4 where a:
      "(if length q > 0 then appendRecordsToCSV env q CSV_FILENAME w3 else (Inr (), w3)) = (ra, w4)"
      by (cases "if length q > 0 then appendRecordsToCSV env q CSV_FILENAME w3 else (Inr (), w3)")
    have e4: "extends (pool_effect env lp) w3 w4 \<and> csv_grows w3 w4"
    proof (cases "q = []")
      case True
      then show ?thesis using a by simp
    next
      case False
      then show ?thesis
        using a appendRecordsToCSV_effects [of env q w3 ra w4 lp] e3 by simp
    qed
    have x4: "extends (pool_effect env lp) w w4"
      using x3 e4 extends_trans by blast
    have g4: "csv_grows w w4"
      using g3 e4 csv_grows_trans by blast
    show ?thesis
    proof (cases ra)
      case (Inl err)
      have "process_pair env fromBlock toBlock batchSize lp cp w = Some (Inl err, cp, w4)"
        using v False h(1) c a Inl by (simp add: process_pair_def Let_def)
      then show ?thesis using x4 g4 by blast
    next
      case (Inr u)
      obtain r w5 where s: "saveCheckpoint env CHECKPOINT_FILENAME (cp @ [lp]) w4 = (r, w5)"
        by (cases "saveCheckpoint env CHECKPOINT_FILENAME (cp @ [lp]) w4")
      note e5 = saveCheckpoint_effects [OF s, of lp]
      have "process_pair env fromBlock toBlock batchSize lp cp w = Some (r, cp @ [lp], w5)"
        using v False h(1) c a Inr s by (simp add: process_pair_def Let_def)
      moreover have "extends (pool_effect env lp) w w5"
        using x4 e5 extends_trans by blast
      moreover have "csv_grows w w5"
        using g4 e5 csv_grows_trans by blast
      ultimately show ?thesis by blast
    qed
  qed
qed

lemma process_pairs_effects:
  assumes "0 < batchSize"
  shows "\<exists>cp' w'. process_pairs env fromBlock toBlock batchSize ps cp w = Some (cp', w')
           \<and> extends (\<lambda>e. \<exists>lp \<in> set ps. pool_effect env lp e) w w' \<and> csv_grows w w'"
proof (induction ps arbitrary: cp w)
  case Nil
  show ?case by simp
next
  case (Cons lp ps)
  let ?Q = "\<lambda>e. \<exists>p \<in> set (lp # ps). pool_effect env p e"
  from process_pair_effects [OF assms, of env fromBlock toBlock lp cp w]
  obtain r cp1 w1 where p:
    "process_pair env fromBlock toBlock batchSize lp cp w = Some (r, cp1, w1)"
    "extends (pool_effect env lp) w w1" "csv_grows w w1"
    by blast
  have x1: "extends ?Q w w1"
    using p(2) by (rule extends_mono) simp
  show ?case
  proof (cases r)
    case (Inr u)
    from Cons.IH [of cp1 w1]
    obtain cp' w' where rest:
      "process_pairs env fromBlock toBlock batchSize ps cp1 w1 = Some (cp', w')"
      "extends (\<lambda>e. \<exists>p \<in> set ps. pool_effect env p e) w1 w'" "csv_grows w1 w'"
      by blast
    have "extends ?Q w1 w'"
      using rest(2) by (rule extends_mono) auto
    then have "extends ?Q w w'" using x1 extends_trans by blast
    moreover have "csv_grows w w'" using p(3) rest(3) csv_grows_trans by blast
    moreover have "process_pairs env fromBlock toBlock batchSize (lp # ps) cp w = Some (cp', w')"
      using p(1) Inr rest(1) by simp
    ultimately show ?thesis by blast
  next
    case (Inl err)
    let ?w2 = "console_error (ErrorProcessing lp err) w1"
    from Cons.IH [of cp1 ?w2]
    obtain cp' w' where rest:
      "process_pairs env fromBlock toBlock batchSize ps cp1 ?w2 = Some (cp', w')"
      "extends (\<lambda>e. \<exists>p \<in> set ps. pool_effect env p e) ?w2 w'" "csv_grows ?w2 w'"
      by blast
    have "extends ?Q w ?w2"
      using x1 by (auto simp: console_error_def intro: extends_emit_trans)
    moreover have "extends ?Q ?w2 w'"
      using rest(2) by (rule extends_mono) auto
    ultimately have "extends ?Q w w'" using extends_trans by blast
    moreover have "csv_grows w ?w2" using p(3) by (simp add: csv_grows_def)
    then have "csv_grows w w'" using rest(3) csv_grows_trans by blast
    moreover have "process_pairs env fromBlock toBlock batchSize (lp # ps) cp w = Some (cp', w')"
      using p(1) Inl rest(1) by simp
    ultimately show ?thesis by blast
  qed
qed

lemma loadCheckpoint_effects:
  "loadCheckpoint env CHECKPOINT_FILENAME w = (cp, w') \<Longrightarrow>
   extends prelude_effect w w' \<and> files w' = files w"
  by (auto simp: loadCheckpoint_def readFileSync_def extends_def
      split: if_splits option.splits sum.splits)

lemma loadCheckpoint_after_getBlockNumber:
  "fst (loadCheckpoint env f (emit GetBlockNumber w)) = fst (loadCheckpoint env f w)"
  by (simp add: loadCheckpoint_def readFileSync_def existsSync_def fs_ops_def
      split: option.splits sum.splits)

lemma main_run:
  "\<exists>r w'. main env w = Some (r, w')
     \<and> extends (\<lambda>e. prelude_effect e \<or>
                     (\<exists>lp. lp \<notin> set (fst (loadCheckpoint env CHECKPOINT_FILENAME w))
                           \<and> pool_effect env lp e)) w w'
     \<and> csv_grows w w'"
proof (cases "rpc_getBlockNumber env (count_list (trace w) GetBlockNumber)")
  case (Inl err)
  then have "main env w = Some (Inl err, emit GetBlockNumber w)"
    by (simp add: main_def call_getBlockNumber_def)
  moreover have "extends (\<lambda>e. prelude_effect e \<or>
                     (\<exists>lp. lp \<notin> set (fst (loadCheckpoint env CHECKPOINT_FILENAME w))
                           \<and> pool_effect env lp e)) w (emit GetBlockNumber w)"
    by (simp add: extends_emit)
  moreover have "csv_grows w (emit GetBlockNumber w)"
    by (simp add: csv_grows_def)
  ultimately show ?thesis by blast
next
  case (Inr latestBlock)
  let ?Q = "\<lambda>e. prelude_effect e \<or>
                     (\<exists>lp. lp \<notin> set (fst (loadCheckpoint env CHECKPOINT_FILENAME w))
                           \<and> pool_effect env lp e)"
  let ?w1 = "emit GetBlockNumber w"
  obtain cp w2 where l: "loadCheckpoint env CHECKPOINT_FILENAME ?w1 = (cp, w2)"
    by (cases "loadCheckpoint env CHECKPOINT_FILENAME ?w1")
  have cp: "cp = fst (loadCheckpoint env CHECKPOINT_FILENAME w)"
    using l loadCheckpoint_after_getBlockNumber [of env CHECKPOINT_FILENAME w] by simp
  note e2 = loadCheckpoint_effects [OF l]
  from getLPPairAddresses_effects [of 5000 env 18672539 latestBlock w2]
  obtain pairs w3 where d:
    "getLPPairAddresses env 18672539 latestBlock 5000 w2 = Some (pairs, w3)"
    "extends prelude_effect w2 w3" "files w3 = files w2"
    by auto
  let ?ps = "filter (\<lambda>addr. addr \<notin> set cp) pairs"
  from process_pairs_effects [of 5000 env 18672539 latestBlock ?ps cp w3]
  obtain cp' w4 where p:
    "process_pairs env 18672539 latestBlock 5000 ?ps cp w3 = Some (cp', w4)"
    "extends (\<lambda>e. \<exists>lp \<in> set ?ps. pool_effect env lp e) w3 w4" "csv_grows w3 w4"
    by auto
  have "main env w = Some (Inr (), w4)"
    using Inr l d(1) p(1) by (simp add: main_def call_getBlockNumber_def Let_def)
  moreover have "extends ?Q w w4"
  proof -
    have "extends ?Q w ?w1" by (simp add: extends_emit)
    moreover have "extends ?Q ?w1 w2" using e2 by (auto intro: extends_mono)
    moreover have "extends ?Q w2 w3" using d(2) by (auto intro: extends_mono)
    moreover have "extends ?Q w3 w4"
      using p(2) unfolding cp by (rule extends_mono) auto
    ultimately show ?thesis using extends_trans by blast
  qed
  moreover have "csv_grows w w4"
  proof -
    have "csv_grows w w3" using e2 d(3) by (simp add: csv_grows_def)
    then show ?thesis using p(3) csv_grows_trans by blast
  qed
  ultimately show ?thesis by blast
qed

section \<open>Runs of \<^verbatim>\<open>main\<close>\<close>

lemmas run_defs =
  main_def call_getBlockNumber_def loadCheckpoint_def existsSync_def readFileSync_def
  getLPPairAddresses_def queryFilterPaginated_def queryFilter_from_step queryFilter_from_stop
  call_queryFilter_def Set_of_def process_pair_def getLiquidityPoolValue_def call_totalSupply_def
  getLPTokenUSDValue_def saveCheckpoint_def writeFileSync_def
  getLPHolders_def checkLPHolderValue_def fetchBalanceWithRetries_def fetchBalance_from.simps
  call_balanceOf_def appendRecordsToCSV_def appendFileSync_def csv_rows_def csv_row_def
  csv_header_def newline_def emit_def console_error_def sleep_def fs_ops_def Let_def
  quiet_env_def empty_world_def pair_log_def mint_log_def is_timeout_def
  CSV_FILENAME_def CHECKPOINT_FILENAME_def

lemma gate_run:
  "\<exists>w'. main gate_env empty_world = Some (Inr (), w')
      \<and> trace w' =
          [GetBlockNumber,
           QueryFilter factoryAddress PairCreated 18672539 18672539,
           TotalSupply ''A'',
           WriteFile CHECKPOINT_FILENAME ''A;'',
           TotalSupply ''B'',
           QueryFilter ''B'' (Transfer (Some ZeroAddress) None) 18672539 18672539,
           BalanceOf ''B'' ''h1'',
           BalanceOf ''B'' ''h2'',
           WriteFile CSV_FILENAME csv_header,
           AppendFile CSV_FILENAME (''B,h1,1200,6000'' @ newline),
           WriteFile CHECKPOINT_FILENAME ''A;B;'']"
  by (simp add: run_defs gate_env_def)

subsection \<open>The valuation gate\<close>

text \<open>
  C1 says that holder discovery follows exactly when the pool value exceeds 20000, and
  that a pool that fails the gate is checkpointed without holder discovery. The program
  tests \<^verbatim>\<open>poolValue >= 20000\<close> to skip, so it does the opposite. In the scenario of the
  specification pool A (25000 USD) is checkpointed with no holder discovery, and pool B
  (10000 USD) has its holders discovered and qualified and its holder h1 written to the
  output.
\<close>

theorem gate_is_inverted:
  "fst (getLiquidityPoolValue gate_env ''A'' 18 empty_world) = 25000
   \<and> fst (getLiquidityPoolValue gate_env ''B'' 18 empty_world) = 10000
   \<and> (\<exists>w'. main gate_env empty_world = Some (Inr (), w')
      \<and> trace w' =
          [GetBlockNumber,
           QueryFilter factoryAddress PairCreated 18672539 18672539,
           TotalSupply ''A'',
           WriteFile CHECKPOINT_FILENAME ''A;'',
           TotalSupply ''B'',
           QueryFilter ''B'' (Transfer (Some ZeroAddress) None) 18672539 18672539,
           BalanceOf ''B'' ''h1'',
           BalanceOf ''B'' ''h2'',
           WriteFile CSV_FILENAME csv_header,
           AppendFile CSV_FILENAME (''B,h1,1200,6000'' @ newline),
           WriteFile CHECKPOINT_FILENAME ''A;B;'']
      \<and> files w' CSV_FILENAME = Some (csv_header @ ''B,h1,1200,6000'' @ newline)
      \<and> files w' CHECKPOINT_FILENAME = Some ''A;B;'')"
  by (simp add: run_defs gate_env_def)

subsection \<open>Checkpointed pools are skipped\<close>

lemma pool_effect_not_concerns:
  "pool_effect env lp e \<Longrightarrow> lp \<noteq> P \<Longrightarrow> \<not> concerns P e"
  by (cases e) auto

lemma prelude_effect_not_concerns: "prelude_effect e \<Longrightarrow> \<not> concerns P e"
  by (cases e) auto

lemma resume_loaded:
  "fst (loadCheckpoint resume_env CHECKPOINT_FILENAME resume_world) = [''A'']"
  by (simp add: run_defs resume_env_def resume_world_def)

lemma resume_run:
  "\<exists>w'. main resume_env resume_world = Some (Inr (), w')
      \<and> trace w' =
          [GetBlockNumber,
           ReadFile CHECKPOINT_FILENAME,
           QueryFilter factoryAddress PairCreated 18672539 18672539,
           TotalSupply ''B'',
           QueryFilter ''B'' (Transfer (Some ZeroAddress) None) 18672539 18672539,
           BalanceOf ''B'' ''h1'',
           AppendFile CSV_FILENAME (''B,h1,#,#'' @ newline),
           WriteFile CHECKPOINT_FILENAME ''A;B;'']
      \<and> files w' CSV_FILENAME = Some (csv_header @ ''A,h0,#,#'' @ newline @ ''B,h1,#,#'' @ newline)"
  by (simp add: run_defs resume_env_def resume_world_def)

text \<open>
  C2. Let the pool \<open>P\<close> be in the checkpoint that the run loads. Then the run ends, and
  nothing it does is valuation, holder discovery or a balance read for \<open>P\<close>, whether pair
  discovery finds \<open>P\<close> again or not; whatever it appends to the output is the rows of
  records of other pools; and what the output file held before the run is still the
  beginning of what it holds after it.
\<close>

theorem checkpointed_pool_is_skipped:
  assumes "P \<in> set (fst (loadCheckpoint env CHECKPOINT_FILENAME w))"
  shows "\<exists>r w'. main env w = Some (r, w')
           \<and> (\<forall>e \<in> set (new_effects w w'). \<not> concerns P e)
           \<and> (\<forall>f d. AppendFile f d \<in> set (new_effects w w') \<longrightarrow>
                 (\<exists>records. d = csv_rows env records \<and> (\<forall>r \<in> set records. lpAddress r \<noteq> P)))
           \<and> (\<forall>c. files w CSV_FILENAME = Some c \<longrightarrow>
                 (\<exists>suffix. files w' CSV_FILENAME = Some (c @ suffix)))"
proof -
  let ?Q = "\<lambda>e. prelude_effect e \<or>
              (\<exists>lp. lp \<notin> set (fst (loadCheckpoint env CHECKPOINT_FILENAME w)) \<and> pool_effect env lp e)"
  from main_run [of env w] obtain r w' where m:
    "main env w = Some (r, w')" "extends ?Q w w'" "csv_grows w w'"
    by blast
  have all: "\<And>e. e \<in> set (new_effects w w') \<Longrightarrow> ?Q e"
    using extends_new_effects [OF m(2)] by (simp add: list_all_iff)
  have a: "\<forall>e \<in> set (new_effects w w'). \<not> concerns P e"
  proof
    fix e assume "e \<in> set (new_effects w w')"
    from all [OF this] show "\<not> concerns P e"
    proof (elim disjE exE conjE)
      assume "prelude_effect e"
      then show ?thesis by (rule prelude_effect_not_concerns)
    next
      fix lp
      assume "lp \<notin> set (fst (loadCheckpoint env CHECKPOINT_FILENAME w))"
         and p: "pool_effect env lp e"
      with assms have "lp \<noteq> P" by auto
      with p show ?thesis by (rule pool_effect_not_concerns)
    qed
  qed
  have b: "\<forall>f d. AppendFile f d \<in> set (new_effects w w') \<longrightarrow>
             (\<exists>records. d = csv_rows env records \<and> (\<forall>r \<in> set records. lpAddress r \<noteq> P))"
  proof (intro allI impI)
    fix f d assume "AppendFile f d \<in> set (new_effects w w')"
    from all [OF this] have
      "\<exists>lp. lp \<notin> set (fst (loadCheckpoint env CHECKPOINT_FILENAME w))
            \<and> pool_effect env lp (AppendFile f d)"
      by simp
    then obtain lp where lp:
      "lp \<notin> set (fst (loadCheckpoint env CHECKPOINT_FILENAME w))"
      "pool_effect env lp (AppendFile f d)"
      by (elim exE conjE)
    from lp(2) have
      "\<exists>records. list_all (\<lambda>r. lpAddress r = lp) records \<and> d = csv_rows env records"
      by (simp, elim conjE exE, intro exI conjI)
    then obtain records where recs:
      "list_all (\<lambda>r. lpAddress r = lp) records" "d = csv_rows env records"
      by (elim exE conjE)
    have "lp \<noteq> P" using lp(1) assms by auto
    with recs(1) have "\<forall>r \<in> set records. lpAddress r \<noteq> P"
      by (simp add: list_all_iff)
    with recs(2) show "\<exists>records. d = csv_rows env records \<and> (\<forall>r \<in> set records. lpAddress r \<noteq> P)"
      by (intro exI [of _ records] conjI)
  qed
  have c: "\<forall>c. files w CSV_FILENAME = Some c \<longrightarrow>
                 (\<exists>suffix. files w' CSV_FILENAME = Some (c @ suffix))"
    using m(3) unfolding csv_grows_def .
  show ?thesis
    by (intro exI [of _ r] exI [of _ w'] conjI m(1) a b c)
qed

theorem checkpointed_pool_is_skipped_witness:
  "''A'' \<in> set (fst (loadCheckpoint resume_env CHECKPOINT_FILENAME resume_world))
   \<and> (\<exists>w'. main resume_env resume_world = Some (Inr (), w')
         \<and> new_effects resume_world w' =
             [GetBlockNumber,
              ReadFile CHECKPOINT_FILENAME,
              QueryFilter factoryAddress PairCreated 18672539 18672539,
              TotalSupply ''B'',
              QueryFilter ''B'' (Transfer (Some ZeroAddress) None) 18672539 18672539,
              BalanceOf ''B'' ''h1'',
              AppendFile CSV_FILENAME (''B,h1,#,#'' @ newline),
              WriteFile CHECKPOINT_FILENAME ''A;B;'']
         \<and> files w' CSV_FILENAME
             = Some (csv_header @ ''A,h0,#,#'' @ newline @ ''B,h1,#,#'' @ newline))"
proof -
  have h: "''A'' \<in> set (fst (loadCheckpoint resume_env CHECKPOINT_FILENAME resume_world))"
    by (simp add: resume_loaded)
  from checkpointed_pool_is_skipped [OF h] obtain r w' where
    "main resume_env resume_world = Some (r, w')" by blast
  moreover have "trace resume_world = []" by (simp add: resume_world_def)
  ultimately show ?thesis
    using resume_run h by (auto simp: new_effects_def)
qed

subsection \<open>An error while a pool is processed\<close>

text \<open>
  C7 says that a pool whose processing throws is not added to the checkpoint. The program
  pushes the pool onto the checkpoint array before it saves the array, and the
  \<^verbatim>\<open>catch\<close> does not take it off again. When the save for pool A throws, the error is
  caught and logged and pool B is processed, but the save for B writes an array that
  holds A: the checkpoint file ends as A, B, and the next run loads A as processed.
\<close>

theorem failed_save_still_checkpoints:
  "\<exists>w'. main save_fails_env empty_world = Some (Inr (), w')
      \<and> trace w' =
          [GetBlockNumber,
           QueryFilter factoryAddress PairCreated 18672539 18672539,
           TotalSupply ''A'',
           QueryFilter ''A'' (Transfer (Some ZeroAddress) None) 18672539 18672539,
           WriteFile CHECKPOINT_FILENAME ''A;'',
           ConsoleError (ErrorProcessing ''A'' ENOSPC),
           TotalSupply ''B'',
           QueryFilter ''B'' (Transfer (Some ZeroAddress) None) 18672539 18672539,
           WriteFile CHECKPOINT_FILENAME ''A;B;'']
      \<and> files w' CHECKPOINT_FILENAME = Some ''A;B;''
      \<and> fst (loadCheckpoint save_fails_env CHECKPOINT_FILENAME w') = [''A'', ''B'']"
  by (simp add: run_defs save_fails_env_def)

subsection \<open>Loading the checkpoint\<close>

lemma corrupt_read:
  "readFileSync quiet_env CHECKPOINT_FILENAME corrupt_world
     = (Inr ''{not json'', emit (ReadFile CHECKPOINT_FILENAME) corrupt_world)"
  by (simp add: readFileSync_def quiet_env_def corrupt_world_def fs_ops_def)

lemma corrupt_parse: "JSON_parse quiet_env ''{not json'' = Inl SyntaxError"
  by (simp add: quiet_env_def)

text \<open>
  C8. \<^verbatim>\<open>loadCheckpoint\<close> returns a list in every case: no error leaves it. When the
  file is absent the list is empty and nothing is logged. When the file exists and its
  contents do not parse, or it cannot be read, the list is empty and one error is logged.
  When the loaded list is empty, \<^verbatim>\<open>main\<close> goes on to process every discovered pool,
  starting from the empty checkpoint.
\<close>

theorem loadCheckpoint_never_fatal:
  "(\<not> existsSync filename w \<longrightarrow> loadCheckpoint env filename w = ([], w))
   \<and> (existsSync filename w \<and> readFileSync env filename w = (Inr data, w1)
        \<and> JSON_parse env data = Inl e \<longrightarrow>
        loadCheckpoint env filename w = ([], console_error ErrorParsingCheckpoint w1)
        \<and> new_effects w (snd (loadCheckpoint env filename w))
            = [ReadFile filename, ConsoleError ErrorParsingCheckpoint])
   \<and> (existsSync filename w \<and> readFileSync env filename w = (Inl e, w1) \<longrightarrow>
        loadCheckpoint env filename w = ([], console_error ErrorParsingCheckpoint w1)
        \<and> new_effects w (snd (loadCheckpoint env filename w))
            = [ReadFile filename, ConsoleError ErrorParsingCheckpoint])
   \<and> (call_getBlockNumber env w = (Inr latestBlock, w2)
        \<and> fst (loadCheckpoint env CHECKPOINT_FILENAME w2) = []
        \<and> getLPPairAddresses env 18672539 latestBlock 5000
             (snd (loadCheckpoint env CHECKPOINT_FILENAME w2)) = Some (pairs, w3) \<longrightarrow>
        main env w =
          (case process_pairs env 18672539 latestBlock 5000 pairs [] w3 of
             None \<Rightarrow> None
           | Some (checkpoint1, w4) \<Rightarrow> Some (Inr (), w4)))"
proof (intro conjI impI)
  assume "\<not> existsSync filename w"
  then show "loadCheckpoint env filename w = ([], w)"
    by (simp add: loadCheckpoint_def)
next
  assume a: "existsSync filename w \<and> readFileSync env filename w = (Inr data, w1)
        \<and> JSON_parse env data = Inl e"
  then show l: "loadCheckpoint env filename w = ([], console_error ErrorParsingCheckpoint w1)"
    by (simp add: loadCheckpoint_def)
  have "trace w1 = trace w @ [ReadFile filename]"
    using a by (auto simp: readFileSync_def split: option.splits)
  then show "new_effects w (snd (loadCheckpoint env filename w))
            = [ReadFile filename, ConsoleError ErrorParsingCheckpoint]"
    unfolding l by (simp add: new_effects_def)
next
  assume a: "existsSync filename w \<and> readFileSync env filename w = (Inl e, w1)"
  then show l: "loadCheckpoint env filename w = ([], console_error ErrorParsingCheckpoint w1)"
    by (simp add: loadCheckpoint_def)
  have "trace w1 = trace w @ [ReadFile filename]"
    using a by (auto simp: readFileSync_def split: option.splits)
  then show "new_effects w (snd (loadCheckpoint env filename w))
            = [ReadFile filename, ConsoleError ErrorParsingCheckpoint]"
    unfolding l by (simp add: new_effects_def)
next
  assume a: "call_getBlockNumber env w = (Inr latestBlock, w2)
        \<and> fst (loadCheckpoint env CHECKPOINT_FILENAME w2) = []
        \<and> getLPPairAddresses env 18672539 latestBlock 5000
             (snd (loadCheckpoint env CHECKPOINT_FILENAME w2)) = Some (pairs, w3)"
  obtain cp wl where l: "loadCheckpoint env CHECKPOINT_FILENAME w2 = (cp, wl)"
    by (cases "loadCheckpoint env CHECKPOINT_FILENAME w2")
  with a have "cp = []" "getLPPairAddresses env 18672539 latestBlock 5000 wl = Some (pairs, w3)"
    by simp_all
  with a l show "main env w =
          (case process_pairs env 18672539 latestBlock 5000 pairs [] w3 of
             None \<Rightarrow> None
           | Some (checkpoint1, w4) \<Rightarrow> Some (Inr (), w4))"
    by (simp add: main_def Let_def)
qed

theorem loadCheckpoint_never_fatal_witness:
  "\<not> existsSync CHECKPOINT_FILENAME empty_world
   \<and> loadCheckpoint quiet_env CHECKPOINT_FILENAME empty_world = ([], empty_world)
   \<and> existsSync CHECKPOINT_FILENAME corrupt_world
   \<and> JSON_parse quiet_env ''{not json'' = Inl SyntaxError
   \<and> loadCheckpoint quiet_env CHECKPOINT_FILENAME corrupt_world =
       ([], console_error ErrorParsingCheckpoint
              (emit (ReadFile CHECKPOINT_FILENAME) corrupt_world))
   \<and> new_effects corrupt_world (snd (loadCheckpoint quiet_env CHECKPOINT_FILENAME corrupt_world))
       = [ReadFile CHECKPOINT_FILENAME, ConsoleError ErrorParsingCheckpoint]
   \<and> main gate_env corrupt_world =
       (case process_pairs gate_env 18672539 18672539 5000 [''A'', ''B''] []
               (emit (QueryFilter factoryAddress PairCreated 18672539 18672539)
                  (console_error ErrorParsingCheckpoint
                     (emit (ReadFile CHECKPOINT_FILENAME) (emit GetBlockNumber corrupt_world)))) of
          None \<Rightarrow> None
        | Some (checkpoint1, w4) \<Rightarrow> Some (Inr (), w4))"
proof -
  let ?w2 = "emit GetBlockNumber corrupt_world"
  let ?wl = "console_error ErrorParsingCheckpoint (emit (ReadFile CHECKPOINT_FILENAME) ?w2)"
  let ?w3 = "emit (QueryFilter factoryAddress PairCreated 18672539 18672539) ?wl"
  have g: "call_getBlockNumber gate_env corrupt_world = (Inr 18672539, ?w2)"
    by (simp add: call_getBlockNumber_def gate_env_def quiet_env_def)
  have l: "loadCheckpoint gate_env CHECKPOINT_FILENAME ?w2 = ([], ?wl)"
    by (simp add: loadCheckpoint_def existsSync_def readFileSync_def fs_ops_def gate_env_def
        quiet_env_def corrupt_world_def)
  have d: "getLPPairAddresses gate_env 18672539 18672539 5000 ?wl = Some ([''A'', ''B''], ?w3)"
    by (simp add: getLPPairAddresses_def queryFilterPaginated_def queryFilter_from_step
        queryFilter_from_stop call_queryFilter_def Set_of_def gate_env_def quiet_env_def
        pair_log_def corrupt_world_def)
  have m: "main gate_env corrupt_world =
       (case process_pairs gate_env 18672539 18672539 5000 [''A'', ''B''] [] ?w3 of
          None \<Rightarrow> None
        | Some (checkpoint1, w4) \<Rightarrow> Some (Inr (), w4))"
    using loadCheckpoint_never_fatal
            [of CHECKPOINT_FILENAME corrupt_world gate_env _ _ _ 18672539 ?w2 "[''A'', ''B'']" ?w3]
          g l d
    by simp
  have a: "\<not> existsSync CHECKPOINT_FILENAME empty_world"
    by (simp add: existsSync_def empty_world_def)
  have b: "existsSync CHECKPOINT_FILENAME corrupt_world"
    by (simp add: existsSync_def corrupt_world_def)
  show ?thesis
    using loadCheckpoint_never_fatal
            [of CHECKPOINT_FILENAME empty_world quiet_env]
          loadCheckpoint_never_fatal
            [of CHECKPOINT_FILENAME corrupt_world quiet_env "''{not json''"
                "emit (ReadFile CHECKPOINT_FILENAME) corrupt_world" SyntaxError]
          a b corrupt_read corrupt_parse m
    by simp
qed

subsection \<open>Appending no records\<close>

lemma join_Nil_iff: "join sep (x # xs) = [] \<Longrightarrow> x = []"
  by (cases xs) simp_all

lemma csv_rows_not_blank: "records \<noteq> [] \<Longrightarrow> csv_rows env records \<noteq> newline"
proof
  assume ne: "records \<noteq> []" and eq: "csv_rows env records = newline"
  then obtain r rs where r: "records = r # rs" by (cases records) auto
  from eq have "join newline (map (csv_row env) records) = []"
    by (simp add: csv_rows_def)
  then have "csv_row env r = []"
    unfolding r using join_Nil_iff by fastforce
  then show False by (simp add: csv_row_def)
qed

text \<open>
  C10. The rows of no records are a single newline. So \<^verbatim>\<open>appendRecordsToCSV\<close> with
  no records, when its file operations succeed, appends one newline to a file that exists,
  and leaves a file that did not exist holding the header and one newline. A run of
  \<^verbatim>\<open>main\<close> never does this: whatever it appends is the rows of at least one record,
  which is never a lone newline.
\<close>

theorem empty_append_writes_blank_row:
  "csv_rows env [] = newline
   \<and> (files w filename = Some c \<and> fs_failure env filename (fs_ops filename w) = None \<longrightarrow>
        (\<exists>w'. appendRecordsToCSV env [] filename w = (Inr (), w')
              \<and> new_effects w w' = [AppendFile filename newline]
              \<and> files w' filename = Some (c @ newline)))
   \<and> (files w filename = None \<and> fs_failure env filename (fs_ops filename w) = None
        \<and> fs_failure env filename (fs_ops filename w + 1) = None \<longrightarrow>
        (\<exists>w'. appendRecordsToCSV env [] filename w = (Inr (), w')
              \<and> new_effects w w' = [WriteFile filename csv_header, AppendFile filename newline]
              \<and> files w' filename = Some (csv_header @ newline)))
   \<and> (main env w = Some (r, w') \<longrightarrow>
        (\<forall>f d. AppendFile f d \<in> set (new_effects w w') \<longrightarrow>
           d \<noteq> newline \<and> (\<exists>records. records \<noteq> [] \<and> d = csv_rows env records)))"
proof (intro conjI impI allI)
  show rows: "csv_rows env [] = newline"
    by (simp add: csv_rows_def)
  {
    assume a: "files w filename = Some c \<and> fs_failure env filename (fs_ops filename w) = None"
    then show "\<exists>w'. appendRecordsToCSV env [] filename w = (Inr (), w')
              \<and> new_effects w w' = [AppendFile filename newline]
              \<and> files w' filename = Some (c @ newline)"
      by (simp add: appendRecordsToCSV_def existsSync_def appendFileSync_def rows new_effects_def)
  }
  {
    assume a: "files w filename = None \<and> fs_failure env filename (fs_ops filename w) = None
        \<and> fs_failure env filename (fs_ops filename w + 1) = None"
    then show "\<exists>w'. appendRecordsToCSV env [] filename w = (Inr (), w')
              \<and> new_effects w w' = [WriteFile filename csv_header, AppendFile filename newline]
              \<and> files w' filename = Some (csv_header @ newline)"
      by (simp add: appendRecordsToCSV_def existsSync_def writeFileSync_def appendFileSync_def
          rows new_effects_def fs_ops_def)
  }
  {
    fix f d
    assume m: "main env w = Some (r, w')" and a: "AppendFile f d \<in> set (new_effects w w')"
    from main_run [of env w] m have
      "extends (\<lambda>e. prelude_effect e \<or>
                     (\<exists>lp. lp \<notin> set (fst (loadCheckpoint env CHECKPOINT_FILENAME w))
                           \<and> pool_effect env lp e)) w w'"
      by simp
    from extends_new_effects [OF this] a
    have "prelude_effect (AppendFile f d) \<or>
          (\<exists>lp. lp \<notin> set (fst (loadCheckpoint env CHECKPOINT_FILENAME w))
                \<and> pool_effect env lp (AppendFile f d))"
      unfolding list_all_iff by (rule bspec)
    then obtain lp where "pool_effect env lp (AppendFile f d)"
      by auto
    then obtain records where recs: "records \<noteq> []" "d = csv_rows env records"
      by auto
    show "d \<noteq> newline"
      unfolding recs(2) using recs(1) by (rule csv_rows_not_blank)
    show "\<exists>records. records \<noteq> [] \<and> d = csv_rows env records"
      using recs by (intro exI [of _ records] conjI)
  }
qed

theorem empty_append_writes_blank_row_witness:
  "(\<exists>w'. appendRecordsToCSV quiet_env [] CSV_FILENAME empty_world = (Inr (), w')
         \<and> new_effects empty_world w' = [WriteFile CSV_FILENAME csv_header, AppendFile CSV_FILENAME newline]
         \<and> files w' CSV_FILENAME = Some (csv_header @ newline))
   \<and> (\<exists>w'. appendRecordsToCSV quiet_env [] CHECKPOINT_FILENAME corrupt_world = (Inr (), w')
         \<and> files w' CHECKPOINT_FILENAME = Some (''{not json'' @ newline))
   \<and> (\<exists>w'. main gate_env empty_world = Some (Inr (), w')
         \<and> AppendFile CSV_FILENAME (''B,h1,1200,6000'' @ newline) \<in> set (new_effects empty_world w')
         \<and> ''B,h1,1200,6000'' @ newline \<noteq> newline)"
proof -
  have a: "files empty_world CSV_FILENAME = None
           \<and> fs_failure quiet_env CSV_FILENAME (fs_ops CSV_FILENAME empty_world) = None
           \<and> fs_failure quiet_env CSV_FILENAME (fs_ops CSV_FILENAME empty_world + 1) = None"
    by (simp add: empty_world_def quiet_env_def)
  have b: "files corrupt_world CHECKPOINT_FILENAME = Some ''{not json''
           \<and> fs_failure quiet_env CHECKPOINT_FILENAME (fs_ops CHECKPOINT_FILENAME corrupt_world) = None"
    by (simp add: corrupt_world_def quiet_env_def)
  from gate_run obtain w' where w':
    "main gate_env empty_world = Some (Inr (), w')"
    "AppendFile CSV_FILENAME (''B,h1,1200,6000'' @ newline) \<in> set (new_effects empty_world w')"
    by (auto simp: new_effects_def empty_world_def)
  note t = empty_append_writes_blank_row
  from t [of quiet_env empty_world CSV_FILENAME] a
  have 1: "\<exists>w'. appendRecordsToCSV quiet_env [] CSV_FILENAME empty_world = (Inr (), w')
         \<and> new_effects empty_world w' = [WriteFile CSV_FILENAME csv_header, AppendFile CSV_FILENAME newline]
         \<and> files w' CSV_FILENAME = Some (csv_header @ newline)"
    by blast
  from t [of quiet_env corrupt_world CHECKPOINT_FILENAME "''{not json''"] b
  have 2: "\<exists>w'. appendRecordsToCSV quiet_env [] CHECKPOINT_FILENAME corrupt_world = (Inr (), w')
         \<and> files w' CHECKPOINT_FILENAME = Some (''{not json'' @ newline)"
    by blast
  from t [of gate_env empty_world _ _ "Inr ()" w'] w'
  have 3: "''B,h1,1200,6000'' @ newline \<noteq> newline"
    by blast
  from 1 2 3 w' show ?thesis by blast
qed

end
